theory Spec2Isabelle
  imports Complex_Main
begin

section \<open>Python values and dictionaries\<close>

text \<open>
  A Python \<open>dict\<close> keeps its keys unique and in insertion order, so it is an association
  list: \<open>d[k] = v\<close> overwrites the value in place when \<open>k\<close> is already a key and appends
  the pair otherwise; \<open>d.update(other)\<close> performs \<open>d[k] = v\<close> for every item of \<open>other\<close>
  in order.
\<close>

fun dict_set :: "('k \<times> 'v) list \<Rightarrow> 'k \<Rightarrow> 'v \<Rightarrow> ('k \<times> 'v) list" where
  "dict_set [] k v = [(k, v)]"
| "dict_set ((k', v') # d) k v = (if k' = k then (k, v) # d else (k', v') # dict_set d k v)"

definition dict_get :: "('k \<times> 'v) list \<Rightarrow> 'k \<Rightarrow> 'v option" where
  "dict_get d k = map_of d k"

definition dict_contains :: "('k \<times> 'v) list \<Rightarrow> 'k \<Rightarrow> bool" where
  "dict_contains d k = (map_of d k \<noteq> None)"

definition dict_keys :: "('k \<times> 'v) list \<Rightarrow> 'k list" where
  "dict_keys d = map fst d"

definition dict_values :: "('k \<times> 'v) list \<Rightarrow> 'v list" where
  "dict_values d = map snd d"

fun dict_update :: "('k \<times> 'v) list \<Rightarrow> ('k \<times> 'v) list \<Rightarrow> ('k \<times> 'v) list" where
  "dict_update d [] = d"
| "dict_update d ((k, v) # other) = dict_update (dict_set d k v) other"

text \<open>
  Mutable dictionaries (the metadata mappings) are objects: they live in a store and are
  named by their address, so that two references to one dictionary see each other's
  writes. Immutable values are carried as they are; a \<open>datetime\<close> is a number and its
  \<open>isoformat()\<close> rendering is kept symbolic (\<open>PIso\<close>). A float metric is idealised as a
  rational.
\<close>

type_synonym addr = nat
type_synonym datetime = int

datatype pyval =
    PNone
  | PBool bool
  | PInt int
  | PNum rat
  | PStr string
  | PIso datetime
  | PRef addr

type_synonym pydict = "(string \<times> pyval) list"

text \<open>
  The world outside the registry: the store of dictionary objects with its allocation
  pointer, and the clock. \<open>datetime.now()\<close> reads the next value of an arbitrary sequence
  of instants.
\<close>

record world =
  heap :: "addr \<Rightarrow> pydict"
  next_addr :: addr
  clock :: "nat \<Rightarrow> datetime"
  ticks :: nat

definition now :: "world \<Rightarrow> datetime \<times> world" where
  "now w = (clock w (ticks w), w\<lparr>ticks := Suc (ticks w)\<rparr>)"

text \<open>Evaluating a dictionary display such as \<open>{}\<close> or \<open>{"a": 1}\<close> creates a new object.\<close>

definition new_dict :: "pydict \<Rightarrow> world \<Rightarrow> addr \<times> world" where
  "new_dict d w =
     (next_addr w, w\<lparr>heap := (heap w)(next_addr w := d), next_addr := Suc (next_addr w)\<rparr>)"

text \<open>
  An argument of type \<open>Optional[Dict]\<close> is \<open>None\<close> or a reference. Its truth value
  (\<open>if metadata:\<close>) is false for \<open>None\<close> and for an empty dictionary.
\<close>

definition truthy :: "world \<Rightarrow> addr option \<Rightarrow> bool" where
  "truthy w md = (case md of None \<Rightarrow> False | Some a \<Rightarrow> heap w a \<noteq> [])"

text \<open>\<open>metadata or {}\<close>: the argument itself when it is truthy, a new empty dictionary otherwise.\<close>

definition or_empty :: "addr option \<Rightarrow> world \<Rightarrow> addr \<times> world" where
  "or_empty md w = (case md of
       None \<Rightarrow> new_dict [] w
     | Some a \<Rightarrow> if heap w a \<noteq> [] then (a, w) else new_dict [] w)"

text \<open>\<open>target.update(source)\<close> on two dictionary objects.\<close>

definition update_obj :: "addr \<Rightarrow> addr \<Rightarrow> world \<Rightarrow> world" where
  "update_obj target source w =
     w\<lparr>heap := (heap w)(target := dict_update (heap w target) (heap w source))\<rparr>"

text \<open>A write \<open>d[k] = v\<close> by the caller into the dictionary object at an address.\<close>

definition caller_setitem :: "addr \<Rightarrow> string \<Rightarrow> pyval \<Rightarrow> world \<Rightarrow> world" where
  "caller_setitem a k v w = w\<lparr>heap := (heap w)(a := dict_set (heap w a) k v)\<rparr>"

section \<open>Component health records\<close>

datatype HealthStatus = HEALTHY | DEGRADED | FAILED | UNKNOWN

fun status_value :: "HealthStatus \<Rightarrow> string" where
  "status_value HEALTHY = ''healthy''"
| "status_value DEGRADED = ''degraded''"
| "status_value FAILED = ''failed''"
| "status_value UNKNOWN = ''unknown''"

text \<open>
  The dataclass \<open>ComponentHealth\<close>. Its \<open>metadata\<close> field is declared \<open>Optional[Dict]\<close>,
  but every constructor call of the module passes a dictionary, so the field holds a
  reference.
\<close>

record ComponentHealth =
  name :: string
  status :: HealthStatus
  last_updated :: datetime
  error_count :: int
  warning_count :: int
  last_error :: "string option"
  last_error_time :: "datetime option"
  fallback_active :: bool
  metadata :: addr

definition opt_str :: "string option \<Rightarrow> pyval" where
  "opt_str s = (case s of None \<Rightarrow> PNone | Some x \<Rightarrow> PStr x)"

definition opt_iso :: "datetime option \<Rightarrow> pyval" where
  "opt_iso t = (case t of None \<Rightarrow> PNone | Some x \<Rightarrow> PIso x)"

text \<open>
  \<open>ComponentHealth.to_dict\<close>. The dictionary it builds is new; the value under
  \<open>"metadata"\<close> is \<open>self.metadata or {}\<close>, that is the record's own metadata object unless
  that object is empty.
\<close>

definition to_dict :: "ComponentHealth \<Rightarrow> world \<Rightarrow> pydict \<times> world" where
  "to_dict h w =
     (let (a, w') = or_empty (Some (metadata h)) w in
      ([(''name'', PStr (name h)),
        (''status'', PStr (status_value (status h))),
        (''last_updated'', PIso (last_updated h)),
        (''error_count'', PInt (error_count h)),
        (''warning_count'', PInt (warning_count h)),
        (''last_error'', opt_str (last_error h)),
        (''last_error_time'', opt_iso (last_error_time h)),
        (''fallback_active'', PBool (fallback_active h)),
        (''metadata'', PRef a)], w'))"

section \<open>The health monitor\<close>

text \<open>
  One \<open>SystemHealthMonitor\<close> object: the attributes \<open>_initialized\<close>, \<open>_components\<close> and
  \<open>_system_status\<close>. The records of \<open>_components\<close> are carried by value: the module itself
  holds no second reference to them.
\<close>

record monitor =
  initialized :: bool
  components :: "(string \<times> ComponentHealth) list"
  system_status :: HealthStatus

datatype error = KeyError string

type_synonym 'a result = "error + 'a"

text \<open>\<open>__init__\<close> on an object whose \<open>_initialized\<close> flag is false.\<close>

definition init_monitor :: monitor where
  "init_monitor = \<lparr>initialized = True, components = [], system_status = HEALTHY\<rparr>"

definition register_component ::
  "string \<Rightarrow> addr option \<Rightarrow> monitor \<Rightarrow> world \<Rightarrow> monitor \<times> world" where
  "register_component n md m w =
     (let (t, w1) = now w;
          (a, w2) = or_empty md w1
      in (m\<lparr>components := dict_set (components m) n
              \<lparr>name = n, status = HEALTHY, last_updated = t, error_count = 0,
               warning_count = 0, last_error = None, last_error_time = None,
               fallback_active = False, metadata = a\<rparr>\<rparr>, w2))"

text \<open>\<open>_update_system_status\<close>\<close>

definition update_system_status :: "monitor \<Rightarrow> monitor" where
  "update_system_status m =
     (if components m = [] then m\<lparr>system_status := UNKNOWN\<rparr>
      else let statuses = map status (dict_values (components m)) in
        if list_ex (\<lambda>s. s = FAILED) statuses then m\<lparr>system_status := DEGRADED\<rparr>
        else if list_ex (\<lambda>s. s = DEGRADED) statuses then m\<lparr>system_status := DEGRADED\<rparr>
        else m\<lparr>system_status := HEALTHY\<rparr>)"

text \<open>
  The common opening of the three \<open>mark_*\<close> methods: register the component when it is
  not yet a key, then read \<open>self._components[component]\<close>, which raises \<open>KeyError\<close> on a
  missing key.
\<close>

definition ensure_registered ::
  "string \<Rightarrow> addr option \<Rightarrow> monitor \<Rightarrow> world \<Rightarrow> monitor \<times> world" where
  "ensure_registered component md m w =
     (if \<not> dict_contains (components m) component
      then register_component component md m w else (m, w))"

definition getitem :: "(string \<times> 'v) list \<Rightarrow> string \<Rightarrow> 'v result" where
  "getitem d k = (case map_of d k of None \<Rightarrow> Inl (KeyError k) | Some v \<Rightarrow> Inr v)"

text \<open>\<open>if metadata: health.metadata.update(metadata)\<close>\<close>

definition merge_metadata :: "ComponentHealth \<Rightarrow> addr option \<Rightarrow> world \<Rightarrow> world" where
  "merge_metadata health md w =
     (if truthy w md then (case md of Some b \<Rightarrow> update_obj (metadata health) b w | None \<Rightarrow> w)
      else w)"

definition mark_healthy ::
  "string \<Rightarrow> addr option \<Rightarrow> monitor \<Rightarrow> world \<Rightarrow> (monitor \<times> world) result" where
  "mark_healthy component md m w =
     (let (m1, w1) = ensure_registered component md m w in
      case getitem (components m1) component of
        Inl e \<Rightarrow> Inl e
      | Inr health \<Rightarrow>
          let (t, w2) = now w1;
              health' = health\<lparr>status := HEALTHY, last_updated := t, fallback_active := False\<rparr>;
              w3 = merge_metadata health' md w2;
              m2 = m1\<lparr>components := dict_set (components m1) component health'\<rparr>
          in Inr (update_system_status m2, w3))"

definition mark_degraded ::
  "string \<Rightarrow> string option \<Rightarrow> bool \<Rightarrow> addr option \<Rightarrow> monitor \<Rightarrow> world
     \<Rightarrow> (monitor \<times> world) result" where
  "mark_degraded component error_msg fb md m w =
     (let (m1, w1) = ensure_registered component md m w in
      case getitem (components m1) component of
        Inl e \<Rightarrow> Inl e
      | Inr health \<Rightarrow>
          let (t1, w2) = now w1;
              (t2, w3) = now w2;
              health' = health\<lparr>status := DEGRADED,
                               warning_count := warning_count health + 1,
                               last_error := error_msg,
                               last_error_time := Some t1,
                               last_updated := t2,
                               fallback_active := fb\<rparr>;
              w4 = merge_metadata health' md w3;
              m2 = m1\<lparr>components := dict_set (components m1) component health'\<rparr>
          in Inr (update_system_status m2, w4))"

definition mark_failed ::
  "string \<Rightarrow> string option \<Rightarrow> addr option \<Rightarrow> monitor \<Rightarrow> world
     \<Rightarrow> (monitor \<times> world) result" where
  "mark_failed component error_msg md m w =
     (let (m1, w1) = ensure_registered component md m w in
      case getitem (components m1) component of
        Inl e \<Rightarrow> Inl e
      | Inr health \<Rightarrow>
          let (t1, w2) = now w1;
              (t2, w3) = now w2;
              health' = health\<lparr>status := FAILED,
                               error_count := error_count health + 1,
                               last_error := error_msg,
                               last_error_time := Some t1,
                               last_updated := t2\<rparr>;
              w4 = merge_metadata health' md w3;
              m2 = m1\<lparr>components := dict_set (components m1) component health'\<rparr>
          in Inr (update_system_status m2, w4))"

text \<open>
  \<open>get_component_health\<close>: an unseen name is stored with status \<open>UNKNOWN\<close> first; the
  aggregate status is not recomputed.
\<close>

definition get_component_health ::
  "string \<Rightarrow> monitor \<Rightarrow> world \<Rightarrow> (ComponentHealth \<times> monitor \<times> world) result" where
  "get_component_health component m w =
     (let (m1, w1) =
        (if \<not> dict_contains (components m) component then
           (let (t, wa) = now w;
                (a, wb) = new_dict [] wa
            in (m\<lparr>components := dict_set (components m) component
                   \<lparr>name = component, status = UNKNOWN, last_updated = t, error_count = 0,
                    warning_count = 0, last_error = None, last_error_time = None,
                    fallback_active = False, metadata = a\<rparr>\<rparr>, wb))
         else (m, w))
      in case getitem (components m1) component of
           Inl e \<Rightarrow> Inl e
         | Inr health \<Rightarrow> Inr (health, m1, w1))"

section \<open>Snapshots\<close>

text \<open>
  The resource monitor (\<open>core.resource_monitor\<close>) is a collaborator outside this module,
  so what its calls do is a parameter: each call either raises or returns. What is raised
  is an instance of \<open>Exception\<close>, of which only \<open>str(e)\<close> is used (\<open>Raises\<close>), or an exception
  outside \<open>Exception\<close>, that is \<open>KeyboardInterrupt\<close>, \<open>SystemExit\<close> or \<open>GeneratorExit\<close>, given
  by its name (\<open>RaisesBase\<close>): a handler \<open>except Exception\<close> catches the first kind only.
  \<open>check_resource_health()\<close> returns a dictionary, given by its items and created as a new
  object at the moment of the call; \<open>get_current_metrics()\<close> returns an object with four
  numeric attributes.
\<close>

datatype 'a outcome = Raises string | RaisesBase string | Returns 'a

record metrics =
  cpu_percent :: rat
  memory_percent :: rat
  disk_usage_percent :: rat
  memory_available_mb :: rat

record resource_monitor =
  check_resource_health :: "pydict outcome"
  get_current_metrics :: "metrics outcome"

text \<open>\<open>round(x, ndigits)\<close> on exact numbers: to the nearest multiple, ties to even.\<close>

definition round_half_even :: "rat \<Rightarrow> int" where
  "round_half_even x =
     (let f = \<lfloor>x\<rfloor>; d = x - of_int f in
      if d < 1 / 2 then f else if 1 / 2 < d then f + 1
      else if even f then f else f + 1)"

definition py_round :: "rat \<Rightarrow> nat \<Rightarrow> rat" where
  "py_round x ndigits = of_int (round_half_even (x * 10 ^ ndigits)) / 10 ^ ndigits"

text \<open>
  The dictionary comprehension \<open>{name: health.to_dict() for name, health in items}\<close>,
  from left to right.
\<close>

fun to_dict_items ::
  "(string \<times> ComponentHealth) list \<Rightarrow> (string \<times> pydict) list \<Rightarrow> world
     \<Rightarrow> (string \<times> pydict) list \<times> world" where
  "to_dict_items [] acc w = (acc, w)"
| "to_dict_items ((n, h) # items) acc w =
     (let (d, w1) = to_dict h w in to_dict_items items (dict_set acc n d) w1)"

text \<open>
  The body of the \<open>try\<close> block of \<open>get_all_health\<close>, up to the record it builds. Whatever
  a call to the collaborator raises ends the block.
\<close>

definition resource_component ::
  "resource_monitor outcome \<Rightarrow> world \<Rightarrow> (ComponentHealth \<times> world) outcome" where
  "resource_component get_resource_monitor w =
     (case get_resource_monitor of
        Raises e \<Rightarrow> Raises e
      | RaisesBase b \<Rightarrow> RaisesBase b
      | Returns rm \<Rightarrow>
         (case check_resource_health rm of
            Raises e \<Rightarrow> Raises e
          | RaisesBase b \<Rightarrow> RaisesBase b
          | Returns items \<Rightarrow>
             (let (resource_status, w0) = new_dict items w;
                  overall = dict_get (heap w0 resource_status) ''overall'';
                  resource_health_status =
                    (if overall = Some (PStr ''critical'') then FAILED
                     else if overall = Some (PStr ''warning'') then DEGRADED
                     else HEALTHY)
              in case get_current_metrics rm of
                   Raises e \<Rightarrow> Raises e
                 | RaisesBase b \<Rightarrow> RaisesBase b
                 | Returns ms \<Rightarrow>
                    (let (t, w1) = now w0;
                         (a, w2) = new_dict
                           [(''cpu_percent'', PNum (py_round (cpu_percent ms) 1)),
                            (''memory_percent'', PNum (py_round (memory_percent ms) 1)),
                            (''disk_percent'', PNum (py_round (disk_usage_percent ms) 1)),
                            (''memory_available_mb'', PNum (py_round (memory_available_mb ms) 0)),
                            (''resource_status'', PRef resource_status)] w1
                     in Returns
                          (\<lparr>name = ''system_resources'', status = resource_health_status,
                            last_updated = t, error_count = 0, warning_count = 0,
                            last_error = None, last_error_time = None,
                            fallback_active = False, metadata = a\<rparr>, w2)))))"

text \<open>The \<open>except Exception as e\<close> handler of \<open>get_all_health\<close>.\<close>

definition unavailable_component :: "string \<Rightarrow> world \<Rightarrow> ComponentHealth \<times> world" where
  "unavailable_component e w =
     (let (t, w1) = now w;
          (a, w2) = new_dict [(''error'', PStr ''Resource monitoring unavailable'')] w1
      in (\<lparr>name = ''system_resources'', status = UNKNOWN, last_updated = t,
           error_count = 0, warning_count = 0, last_error = Some e,
           last_error_time = None, fallback_active = False, metadata = a\<rparr>, w2))"

text \<open>
  \<open>get_all_health\<close> returns the snapshot, or passes on to its caller what the handler
  \<open>except Exception\<close> does not catch. Either way it leaves a world behind.
\<close>

definition get_all_health ::
  "resource_monitor outcome \<Rightarrow> monitor \<Rightarrow> world \<Rightarrow> (string \<times> pydict) list outcome \<times> world" where
  "get_all_health get_resource_monitor m w =
     (let (health_data, w1) = to_dict_items (components m) [] w in
      case resource_component get_resource_monitor w1 of
        Returns (rc, w2) \<Rightarrow>
          (let (d, w3) = to_dict rc w2
           in (Returns (dict_set health_data ''system_resources'' d), w3))
      | Raises e \<Rightarrow>
          (let (rc, w2) = unavailable_component e w1;
               (d, w3) = to_dict rc w2
           in (Returns (dict_set health_data ''system_resources'' d), w3))
      | RaisesBase b \<Rightarrow> (RaisesBase b, w1))"

text \<open>The dictionary returned by \<open>get_system_status\<close>, one field for each of its keys.\<close>

record system_report =
  overall_status :: string
  timestamp :: datetime
  component_counts :: "(string \<times> int) list"
  report_components :: "(string \<times> pydict) list"

definition count_status :: "HealthStatus \<Rightarrow> monitor \<Rightarrow> int" where
  "count_status s m = int (length (filter (\<lambda>c. status c = s) (dict_values (components m))))"

text \<open>
  \<open>get_system_status\<close> has no handler: what \<open>get_all_health\<close> passes on, it passes on.
\<close>

definition get_system_status ::
  "resource_monitor outcome \<Rightarrow> monitor \<Rightarrow> world \<Rightarrow> system_report outcome \<times> world" where
  "get_system_status get_resource_monitor m w =
     (let healthy_count = count_status HEALTHY m;
          degraded_count = count_status DEGRADED m;
          failed_count = count_status FAILED m;
          (t, w1) = now w;
          (all_health, w2) = get_all_health get_resource_monitor m w1
      in case all_health of
           Returns snapshot \<Rightarrow>
             (Returns \<lparr>overall_status = status_value (system_status m),
                       timestamp = t,
                       component_counts =
                         [(''healthy'', healthy_count), (''degraded'', degraded_count),
                          (''failed'', failed_count), (''total'', int (length (components m)))],
                       report_components = snapshot\<rparr>, w2)
         | Raises e \<Rightarrow> (Raises e, w2)
         | RaisesBase b \<Rightarrow> (RaisesBase b, w2))"

definition is_system_healthy :: "monitor \<Rightarrow> bool" where
  "is_system_healthy m = (system_status m = HEALTHY)"

definition is_system_degraded :: "monitor \<Rightarrow> bool" where
  "is_system_degraded m = (system_status m = DEGRADED)"

section \<open>The singleton and its reset\<close>

text \<open>
  The process holds the \<open>SystemHealthMonitor\<close> objects created so far (named by their
  identity), the class attribute \<open>_instance\<close> and the module global \<open>_health_monitor\<close>.
\<close>

record program =
  objs :: "nat \<Rightarrow> monitor"
  next_obj :: nat
  cls_instance :: "nat option"
  health_monitor :: "nat option"

text \<open>
  \<open>__new__\<close> creates an object that carries only \<open>_initialized = False\<close>; its other two
  attributes do not exist until \<open>__init__\<close> assigns them, and nothing reads them before.
  They are given here the values \<open>[]\<close> and \<open>UNKNOWN\<close>.
\<close>

definition blank_object :: monitor where
  "blank_object = \<lparr>initialized = False, components = [], system_status = UNKNOWN\<rparr>"

definition monitor_new :: "program \<Rightarrow> nat \<times> program" where
  "monitor_new p =
     (case cls_instance p of
        None \<Rightarrow> (next_obj p,
                  p\<lparr>objs := (objs p)(next_obj p := blank_object),
                    next_obj := Suc (next_obj p),
                    cls_instance := Some (next_obj p)\<rparr>)
      | Some i \<Rightarrow> (i, p))"

definition monitor_init :: "monitor \<Rightarrow> monitor" where
  "monitor_init self = (if initialized self then self else init_monitor)"

text \<open>The call \<open>SystemHealthMonitor()\<close>: \<open>__new__\<close>, then \<open>__init__\<close> on its result.\<close>

definition construct_monitor :: "program \<Rightarrow> nat \<times> program" where
  "construct_monitor p =
     (let (i, p1) = monitor_new p in (i, p1\<lparr>objs := (objs p1)(i := monitor_init (objs p1 i))\<rparr>))"

definition get_health_monitor :: "program \<Rightarrow> nat \<times> program" where
  "get_health_monitor p =
     (case health_monitor p of
        None \<Rightarrow> (let (i, p1) = construct_monitor p in (i, p1\<lparr>health_monitor := Some i\<rparr>))
      | Some i \<Rightarrow> (i, p))"

text \<open>\<open>reset\<close> called on the object \<open>self\<close>.\<close>

definition reset :: "nat \<Rightarrow> program \<Rightarrow> program" where
  "reset self p =
     p\<lparr>objs := (objs p)(self := (objs p self)\<lparr>components := [], system_status := HEALTHY,
                                              initialized := False\<rparr>),
       cls_instance := None,
       health_monitor := None\<rparr>"

section \<open>Sequences of calls\<close>

text \<open>
  A caller of one monitor object interleaves the public methods with its own work on the
  dictionaries it passes in: creating one and writing into one. A step is the change of
  the registry and of the world by one call; what a query returns, or passes on to the
  caller from the collaborator, goes to the caller, who makes the next call.
\<close>

datatype call =
    Register string "addr option"
  | MarkHealthy string "addr option"
  | MarkDegraded string "string option" bool "addr option"
  | MarkFailed string "string option" "addr option"
  | GetComponentHealth string
  | GetAllHealth "resource_monitor outcome"
  | GetSystemStatus "resource_monitor outcome"
  | CallerNewDict pydict
  | CallerSetItem addr string pyval

fun step :: "call \<Rightarrow> monitor \<times> world \<Rightarrow> (monitor \<times> world) result" where
  "step (Register n md) (m, w) = Inr (register_component n md m w)"
| "step (MarkHealthy n md) (m, w) = mark_healthy n md m w"
| "step (MarkDegraded n e fb md) (m, w) = mark_degraded n e fb md m w"
| "step (MarkFailed n e md) (m, w) = mark_failed n e md m w"
| "step (GetComponentHealth n) (m, w) =
     (case get_component_health n m w of Inl e \<Rightarrow> Inl e | Inr (h, m', w') \<Rightarrow> Inr (m', w'))"
| "step (GetAllHealth rm) (m, w) = Inr (m, snd (get_all_health rm m w))"
| "step (GetSystemStatus rm) (m, w) = Inr (m, snd (get_system_status rm m w))"
| "step (CallerNewDict d) (m, w) = Inr (m, snd (new_dict d w))"
| "step (CallerSetItem a k v) (m, w) = Inr (m, caller_setitem a k v w)"

fun run :: "call list \<Rightarrow> monitor \<times> world \<Rightarrow> (monitor \<times> world) result" where
  "run [] s = Inr s"
| "run (c # cs) s = (case step c s of Inl e \<Rightarrow> Inl e | Inr s' \<Rightarrow> run cs s')"

section \<open>The audit logger\<close>

datatype AuditEventType =
    AUTH_SUCCESS | AUTH_FAILURE | ACCESS_DENIED | CONFIG_CHANGE | PHASE_CHANGE
  | CHAOS_INJECTION | API_ACCESS | ADMIN_ACTION | SECURITY_VIOLATION

fun event_value :: "AuditEventType \<Rightarrow> string" where
  "event_value AUTH_SUCCESS = ''auth_success''"
| "event_value AUTH_FAILURE = ''auth_failure''"
| "event_value ACCESS_DENIED = ''access_denied''"
| "event_value CONFIG_CHANGE = ''config_change''"
| "event_value PHASE_CHANGE = ''phase_change''"
| "event_value CHAOS_INJECTION = ''chaos_injection''"
| "event_value API_ACCESS = ''api_access''"
| "event_value ADMIN_ACTION = ''admin_action''"
| "event_value SECURITY_VIOLATION = ''security_violation''"

definition LF :: char where "LF = CHR 0x0A"
definition CR :: char where "CR = CHR 0x0D"

text \<open>\<open>s.replace(old, new)\<close> for one-character \<open>old\<close> and \<open>new\<close>.\<close>

definition replace_char :: "char \<Rightarrow> char \<Rightarrow> string \<Rightarrow> string" where
  "replace_char old new s = map (\<lambda>c. if c = old then new else c) s"

text \<open>The levels of the \<open>logging\<close> module and the names it prints for them.\<close>

definition INFO :: int where "INFO = 20"
definition WARNING :: int where "WARNING = 30"
definition ERROR :: int where "ERROR = 40"

function show_nat :: "nat \<Rightarrow> string" where
  "show_nat n =
     (if n < 10 then [char_of (48 + n)] else show_nat (n div 10) @ [char_of (48 + n mod 10)])"
  by pat_completeness auto
termination
  by (relation "measure id") auto

definition show_int :: "int \<Rightarrow> string" where
  "show_int i = (if i < 0 then CHR ''-'' # show_nat (nat (- i)) else show_nat (nat i))"

definition level_name :: "int \<Rightarrow> string" where
  "level_name level =
     (if level = 50 then ''CRITICAL'' else if level = 40 then ''ERROR''
      else if level = 30 then ''WARNING'' else if level = 20 then ''INFO''
      else if level = 10 then ''DEBUG'' else if level = 0 then ''NOTSET''
      else ''Level '' @ show_int level)"

text \<open>
  The formatter installed by \<open>AuditLogger.__init__\<close>:
  \<^verbatim>\<open>%(asctime)s - %(levelname)s - %(event_type)s - %(user)s - %(ip)s - %(resource)s - %(action)s - %(details)s\<close>.
  The time of the record, already rendered with the date format, is an input.
\<close>

definition audit_format ::
  "string \<Rightarrow> string \<Rightarrow> string \<Rightarrow> string \<Rightarrow> string \<Rightarrow> string \<Rightarrow> string \<Rightarrow> string \<Rightarrow> string" where
  "audit_format asctime levelname event_type user ip resource action details =
     asctime @ '' - '' @ levelname @ '' - '' @ event_type @ '' - '' @ user @ '' - '' @ ip
       @ '' - '' @ resource @ '' - '' @ action @ '' - '' @ details"

text \<open>
  The first statement of \<open>log_event\<close>. \<open>str(details)\<close> renders keys and values with their
  own \<open>repr\<close>, which for values of type \<open>Any\<close> is arbitrary text: it is the parameter
  \<open>str_dict\<close>.
\<close>

definition details_str :: "(pydict \<Rightarrow> string) \<Rightarrow> pydict option \<Rightarrow> string" where
  "details_str str_dict details =
     (case details of
        None \<Rightarrow> []
      | Some d \<Rightarrow> if d = [] then []
                  else replace_char CR (CHR '' '') (replace_char LF (CHR '' '') (str_dict d)))"

text \<open>
  \<open>log_event\<close>: the text the handler writes for the record, before the line terminator,
  or \<open>None\<close> when the logger, set to level \<open>INFO\<close>, drops the record.
\<close>

definition log_event ::
  "(pydict \<Rightarrow> string) \<Rightarrow> string \<Rightarrow> AuditEventType \<Rightarrow> string \<Rightarrow> string \<Rightarrow> string \<Rightarrow> string
     \<Rightarrow> pydict option \<Rightarrow> int \<Rightarrow> string option" where
  "log_event str_dict asctime event_type user ip resource action details level =
     (if level < INFO then None
      else Some (audit_format asctime (level_name level) (event_value event_type) user ip
                   resource action (details_str str_dict details)))"

definition log_auth_success ::
  "(pydict \<Rightarrow> string) \<Rightarrow> string \<Rightarrow> string \<Rightarrow> string \<Rightarrow> string \<Rightarrow> string option" where
  "log_auth_success str_dict asctime user ip method =
     log_event str_dict asctime AUTH_SUCCESS user ip ''authentication'' ''login''
       (Some [(''method'', PStr method)]) INFO"

definition log_auth_failure ::
  "(pydict \<Rightarrow> string) \<Rightarrow> string \<Rightarrow> string \<Rightarrow> string \<Rightarrow> string \<Rightarrow> string option" where
  "log_auth_failure str_dict asctime user ip reason =
     log_event str_dict asctime AUTH_FAILURE user ip ''authentication'' ''login_attempt''
       (Some [(''reason'', PStr reason)]) WARNING"

definition log_access_denied ::
  "(pydict \<Rightarrow> string) \<Rightarrow> string \<Rightarrow> string \<Rightarrow> string \<Rightarrow> string \<Rightarrow> string \<Rightarrow> string option" where
  "log_access_denied str_dict asctime user ip resource required_permission =
     log_event str_dict asctime ACCESS_DENIED user ip resource ''access_denied''
       (Some [(''required_permission'', PStr required_permission)]) WARNING"

definition log_api_access ::
  "(pydict \<Rightarrow> string) \<Rightarrow> string \<Rightarrow> string \<Rightarrow> string \<Rightarrow> string \<Rightarrow> string \<Rightarrow> int \<Rightarrow> string option" where
  "log_api_access str_dict asctime user ip endpoint method status_code =
     log_event str_dict asctime API_ACCESS user ip endpoint method
       (Some [(''status_code'', PInt status_code)]) INFO"

definition log_admin_action ::
  "(pydict \<Rightarrow> string) \<Rightarrow> string \<Rightarrow> string \<Rightarrow> string \<Rightarrow> string \<Rightarrow> pydict option \<Rightarrow> string option" where
  "log_admin_action str_dict asctime user ip action details =
     log_event str_dict asctime ADMIN_ACTION user ip ''admin'' action details INFO"

text \<open>\<open>log_config_change\<close> renders the two values with \<open>str\<close>, the parameter \<open>str_val\<close>.\<close>

definition log_config_change ::
  "(pydict \<Rightarrow> string) \<Rightarrow> (pyval \<Rightarrow> string) \<Rightarrow> string \<Rightarrow> string \<Rightarrow> string \<Rightarrow> string
     \<Rightarrow> pyval \<Rightarrow> pyval \<Rightarrow> string option" where
  "log_config_change str_dict str_val asctime user ip config_key old_value new_value =
     log_event str_dict asctime CONFIG_CHANGE user ip ''configuration'' ''change''
       (Some [(''config_key'', PStr config_key), (''old_value'', PStr (str_val old_value)),
              (''new_value'', PStr (str_val new_value))]) INFO"

definition log_phase_change ::
  "(pydict \<Rightarrow> string) \<Rightarrow> string \<Rightarrow> string \<Rightarrow> string \<Rightarrow> string \<Rightarrow> string \<Rightarrow> bool
     \<Rightarrow> string option" where
  "log_phase_change str_dict asctime user ip old_phase new_phase force =
     log_event str_dict asctime PHASE_CHANGE user ip ''mission_phase'' ''change''
       (Some [(''old_phase'', PStr old_phase), (''new_phase'', PStr new_phase),
              (''force'', PBool force)]) INFO"

definition log_chaos_injection ::
  "(pydict \<Rightarrow> string) \<Rightarrow> string \<Rightarrow> string \<Rightarrow> string \<Rightarrow> string \<Rightarrow> int \<Rightarrow> string option" where
  "log_chaos_injection str_dict asctime user ip fault_type duration =
     log_event str_dict asctime CHAOS_INJECTION user ip ''chaos_engine'' ''inject_fault''
       (Some [(''fault_type'', PStr fault_type), (''duration_seconds'', PInt duration)]) WARNING"

text \<open>\<open>{"violation_type": violation_type, **(details or {})}\<close>\<close>

definition log_security_violation ::
  "(pydict \<Rightarrow> string) \<Rightarrow> string \<Rightarrow> string \<Rightarrow> string \<Rightarrow> string \<Rightarrow> pydict option
     \<Rightarrow> string option" where
  "log_security_violation str_dict asctime user ip violation_type details =
     log_event str_dict asctime SECURITY_VIOLATION user ip ''security'' ''violation''
       (Some (dict_update [(''violation_type'', PStr violation_type)]
                (case details of None \<Rightarrow> [] | Some d \<Rightarrow> d))) ERROR"

section \<open>Notions used in the statements\<close>

text \<open>
  The aggregation policy as the specification words it: no component gives Unknown, a
  Failed or Degraded component gives Degraded, otherwise Healthy.
\<close>

definition spec_policy :: "(string \<times> ComponentHealth) list \<Rightarrow> HealthStatus" where
  "spec_policy cs =
     (if cs = [] then UNKNOWN
      else if list_ex (\<lambda>c. status c = FAILED \<or> status c = DEGRADED) (dict_values cs) then DEGRADED
      else HEALTHY)"

text \<open>
  The same policy over the registries the public methods can produce, where the empty
  one stores Healthy: Degraded when a component is Failed or Degraded, Healthy otherwise.
\<close>

definition degraded_present :: "monitor \<Rightarrow> bool" where
  "degraded_present m =
     list_ex (\<lambda>c. status c = FAILED \<or> status c = DEGRADED) (dict_values (components m))"

definition stored_policy :: "monitor \<Rightarrow> HealthStatus" where
  "stored_policy m = (if degraded_present m then DEGRADED else HEALTHY)"

text \<open>The calls that end with \<open>self._update_system_status()\<close>.\<close>

fun is_mark :: "call \<Rightarrow> bool" where
  "is_mark (MarkHealthy n md) = True"
| "is_mark (MarkDegraded n e fb md) = True"
| "is_mark (MarkFailed n e md) = True"
| "is_mark c = False"

text \<open>
  A call that registers anew a component that is Failed or Degraded at that moment, and
  the sequences of calls in which, run from a state, no call does so.
\<close>

fun stale_register :: "call \<Rightarrow> monitor \<Rightarrow> bool" where
  "stale_register (Register n md) m =
     (case dict_get (components m) n of
        None \<Rightarrow> False
      | Some h \<Rightarrow> status h = FAILED \<or> status h = DEGRADED)"
| "stale_register c m = False"

fun no_stale_register :: "call list \<Rightarrow> monitor \<times> world \<Rightarrow> bool" where
  "no_stale_register [] s = True"
| "no_stale_register (c # cs) s =
     (\<not> stale_register c (fst s)
      \<and> (case step c s of Inl e \<Rightarrow> True | Inr s' \<Rightarrow> no_stale_register cs s'))"

text \<open>The counters of a name, zero while the name has no record.\<close>

definition errors_of :: "monitor \<Rightarrow> string \<Rightarrow> int" where
  "errors_of m n = (case dict_get (components m) n of None \<Rightarrow> 0 | Some h \<Rightarrow> error_count h)"

definition warnings_of :: "monitor \<Rightarrow> string \<Rightarrow> int" where
  "warnings_of m n = (case dict_get (components m) n of None \<Rightarrow> 0 | Some h \<Rightarrow> warning_count h)"

text \<open>
  What the registry stores, read through the store: every record together with the
  contents of its metadata dictionary.
\<close>

definition stored_view :: "monitor \<Rightarrow> world \<Rightarrow> (string \<times> ComponentHealth \<times> pydict) list" where
  "stored_view m w = map (\<lambda>(n, h). (n, h, heap w (metadata h))) (components m)"

text \<open>The metadata argument as a dictionary: empty for \<open>None\<close>.\<close>

definition arg_dict :: "world \<Rightarrow> addr option \<Rightarrow> pydict" where
  "arg_dict w md = (case md of None \<Rightarrow> [] | Some a \<Rightarrow> heap w a)"

text \<open>Every metadata reference of the registry points to an allocated dictionary object.\<close>

definition refs_allocated :: "monitor \<Rightarrow> world \<Rightarrow> bool" where
  "refs_allocated m w = list_all (\<lambda>h. metadata h < next_addr w) (dict_values (components m))"

text \<open>An empty store with a clock that reads 0, 1, 2, ...\<close>

text \<open>
  What a call leaves in the counters of the name \<open>n\<close>: \<open>register_component\<close> of that name
  stores a new record, \<open>mark_failed\<close> and \<open>mark_degraded\<close> of that name add one.
\<close>

fun errors_after :: "call \<Rightarrow> string \<Rightarrow> int \<Rightarrow> int" where
  "errors_after (Register n' md) n old = (if n' = n then 0 else old)"
| "errors_after (MarkFailed n' e md) n old = (if n' = n then old + 1 else old)"
| "errors_after c n old = old"

fun warnings_after :: "call \<Rightarrow> string \<Rightarrow> int \<Rightarrow> int" where
  "warnings_after (Register n' md) n old = (if n' = n then 0 else old)"
| "warnings_after (MarkDegraded n' e fb md) n old = (if n' = n then old + 1 else old)"
| "warnings_after c n old = old"

fun is_register_of :: "string \<Rightarrow> call \<Rightarrow> bool" where
  "is_register_of n (Register n' md) = (n' = n)"
| "is_register_of n c = False"

text \<open>
  The fallback flag and the metadata of a name before a call: those of its record, and
  those of a newly registered record (no fallback, no metadata) while it has none.
\<close>

definition fallback_of :: "monitor \<Rightarrow> string \<Rightarrow> bool" where
  "fallback_of m n =
     (case dict_get (components m) n of None \<Rightarrow> False | Some h \<Rightarrow> fallback_active h)"

definition metadata_of :: "monitor \<Rightarrow> world \<Rightarrow> string \<Rightarrow> pydict" where
  "metadata_of m w n =
     (case dict_get (components m) n of None \<Rightarrow> [] | Some h \<Rightarrow> heap w (metadata h))"

text \<open>The name carried by the record of a key, the key itself while it has no record.\<close>

definition name_of :: "monitor \<Rightarrow> string \<Rightarrow> string" where
  "name_of m n = (case map_of (components m) n of None \<Rightarrow> n | Some h \<Rightarrow> name h)"

text \<open>The number of clock readings a \<open>mark_*\<close> call makes before its own: one when it registers.\<close>

definition register_ticks :: "monitor \<Rightarrow> string \<Rightarrow> nat" where
  "register_ticks m n = (if dict_contains (components m) n then 0 else 1)"

text \<open>Each name is a key once, and is the name of the record stored under it.\<close>

definition one_record_per_name :: "monitor \<Rightarrow> bool" where
  "one_record_per_name m =
     (distinct (dict_keys (components m)) \<and> list_all (\<lambda>(k, h). name h = k) (components m))"

text \<open>
  What the collaborator raises first, in the order of the calls made to it: an instance
  of \<open>Exception\<close> (\<open>collaborator_failure\<close>), or an exception outside \<open>Exception\<close> (\<open>uncaught\<close>).
\<close>

definition collaborator_failure :: "resource_monitor outcome \<Rightarrow> string option" where
  "collaborator_failure g =
     (case g of
        Raises e \<Rightarrow> Some e
      | RaisesBase b \<Rightarrow> None
      | Returns rm \<Rightarrow>
         (case check_resource_health rm of
            Raises e \<Rightarrow> Some e
          | RaisesBase b \<Rightarrow> None
          | Returns items \<Rightarrow>
             (case get_current_metrics rm of
                Raises e \<Rightarrow> Some e
              | RaisesBase b \<Rightarrow> None
              | Returns ms \<Rightarrow> None)))"

definition uncaught :: "resource_monitor outcome \<Rightarrow> string option" where
  "uncaught g =
     (case g of
        Raises e \<Rightarrow> None
      | RaisesBase b \<Rightarrow> Some b
      | Returns rm \<Rightarrow>
         (case check_resource_health rm of
            Raises e \<Rightarrow> None
          | RaisesBase b \<Rightarrow> Some b
          | Returns items \<Rightarrow>
             (case get_current_metrics rm of
                Raises e \<Rightarrow> None
              | RaisesBase b \<Rightarrow> Some b
              | Returns ms \<Rightarrow> None)))"

text \<open>The overall verdict of a collaborator, when \<open>check_resource_health()\<close> returns one.\<close>

definition collaborator_overall :: "resource_monitor outcome \<Rightarrow> pyval option" where
  "collaborator_overall g =
     (case g of
        Raises e \<Rightarrow> None
      | RaisesBase b \<Rightarrow> None
      | Returns rm \<Rightarrow>
         (case check_resource_health rm of
            Raises e \<Rightarrow> None
          | RaisesBase b \<Rightarrow> None
          | Returns items \<Rightarrow> dict_get items ''overall''))"

definition world0 :: world where
  "world0 = \<lparr>heap = (\<lambda>a. []), next_addr = 0, clock = (\<lambda>n. int n), ticks = 0\<rparr>"

text \<open>
  A registry with one degraded component \<open>x\<close> running on its fallback, in a world that
  holds the metadata \<open>{"a": 1}\<close> of \<open>x\<close> at address 0, an empty dictionary at address 1 and
  a caller's dictionary \<open>{"b": 2}\<close> at address 2.
\<close>

definition world1 :: world where
  "world1 = \<lparr>heap = (\<lambda>a. [])(0 := [(''a'', PInt 1)], 2 := [(''b'', PInt 2)]), next_addr = 3,
             clock = (\<lambda>n. int n), ticks = 0\<rparr>"

definition monitor1 :: monitor where
  "monitor1 = \<lparr>initialized = True,
               components = [(''x'', \<lparr>name = ''x'', status = DEGRADED, last_updated = 0,
                                     error_count = 2, warning_count = 1,
                                     last_error = Some ''slow'', last_error_time = Some 0,
                                     fallback_active = True, metadata = 0\<rparr>)],
               system_status = DEGRADED\<rparr>"

text \<open>
  The state after \<open>register("c", {"a": 1})\<close> on a new registry, together with the address
  of a dictionary \<open>{"b": 2}\<close> that the caller has created since.
\<close>

definition registered_c :: "monitor \<times> world \<times> addr" where
  "registered_c =
     (let (a, w1) = new_dict [(''a'', PInt 1)] world0;
          (m, w2) = register_component ''c'' (Some a) init_monitor w1;
          (b, w3) = new_dict [(''b'', PInt 2)] w2
      in (m, w3, b))"

definition reg_m :: monitor where
  "reg_m = fst registered_c"

definition reg_w :: world where
  "reg_w = fst (snd registered_c)"

text \<open>
  A later world extends an earlier one when it has allocated more and has left every
  dictionary allocated before as it was.
\<close>

definition extends :: "world \<Rightarrow> world \<Rightarrow> bool" where
  "extends w w' = (next_addr w \<le> next_addr w' \<and> (\<forall>a<next_addr w. heap w' a = heap w a))"

text \<open>The value under \<open>"metadata"\<close> in the entry of a name in a snapshot that is returned.\<close>

definition snapshot_metadata :: "(string \<times> pydict) list outcome \<Rightarrow> string \<Rightarrow> pyval option" where
  "snapshot_metadata res n =
     (case res of
        Returns r \<Rightarrow> (case dict_get r n of None \<Rightarrow> None | Some d \<Rightarrow> dict_get d ''metadata'')
      | Raises e \<Rightarrow> None
      | RaisesBase b \<Rightarrow> None)"

text \<open>The entry \<open>to_dict\<close> builds for a record, given the reference it puts under \<open>"metadata"\<close>.\<close>

definition entry_of :: "ComponentHealth \<Rightarrow> addr \<Rightarrow> pydict" where
  "entry_of h a =
     [(''name'', PStr (name h)),
      (''status'', PStr (status_value (status h))),
      (''last_updated'', PIso (last_updated h)),
      (''error_count'', PInt (error_count h)),
      (''warning_count'', PInt (warning_count h)),
      (''last_error'', opt_str (last_error h)),
      (''last_error_time'', opt_iso (last_error_time h)),
      (''fallback_active'', PBool (fallback_active h)),
      (''metadata'', PRef a)]"

text \<open>
  Collaborators for the examples: one that reports a verdict with some metrics, one whose
  metrics call raises.
\<close>

definition monitor_reports :: "string \<Rightarrow> resource_monitor outcome" where
  "monitor_reports verdict =
     Returns \<lparr>check_resource_health = Returns [(''overall'', PStr verdict)],
              get_current_metrics =
                Returns \<lparr>cpu_percent = 25 / 2, memory_percent = 40,
                         disk_usage_percent = 70, memory_available_mb = 2048\<rparr>\<rparr>"

definition metrics_raise :: "string \<Rightarrow> resource_monitor outcome" where
  "metrics_raise e =
     Returns \<lparr>check_resource_health = Returns [(''overall'', PStr ''ok'')],
              get_current_metrics = Raises e\<rparr>"

text \<open>A collaborator whose health check is ended by \<open>SystemExit\<close>.\<close>

definition check_exits :: "resource_monitor outcome" where
  "check_exits =
     Returns \<lparr>check_resource_health = RaisesBase ''SystemExit'',
              get_current_metrics = Raises ''not reached''\<rparr>"

text \<open>A registry in \<open>world1\<close> whose component \<open>e\<close> has the empty dictionary at address 1.\<close>

definition monitor_e :: monitor where
  "monitor_e = \<lparr>initialized = True,
                components = [(''e'', \<lparr>name = ''e'', status = HEALTHY, last_updated = 0,
                                      error_count = 0, warning_count = 0,
                                      last_error = None, last_error_time = None,
                                      fallback_active = False, metadata = Suc 0\<rparr>)],
                system_status = HEALTHY\<rparr>"

definition program0 :: program where
  "program0 = \<lparr>objs = (\<lambda>i. blank_object), next_obj = 0, cls_instance = None,
                health_monitor = None\<rparr>"

text \<open>A process whose singleton, the object 0, has become the registry \<open>monitor1\<close>.\<close>

definition program1 :: program where
  "program1 = \<lparr>objs = (\<lambda>i. blank_object)(0 := monitor1), next_obj = 1, cls_instance = Some 0,
                health_monitor = Some 0\<rparr>"

text \<open>The registry a sequence of calls leaves, starting from a new one in the empty world.\<close>

definition after :: "call list \<Rightarrow> monitor option" where
  "after cs = (case run cs (init_monitor, world0) of Inl e \<Rightarrow> None | Inr (m, w) \<Rightarrow> Some m)"

text \<open>What is then observed: the stored aggregate status, the policy applied to the
  components, the status of each component, and the two counters of a name.\<close>

definition status_after :: "call list \<Rightarrow> HealthStatus option" where
  "status_after cs = map_option system_status (after cs)"

definition policy_after :: "call list \<Rightarrow> HealthStatus option" where
  "policy_after cs = map_option (\<lambda>m. spec_policy (components m)) (after cs)"

definition statuses_after :: "call list \<Rightarrow> (string \<times> HealthStatus) list option" where
  "statuses_after cs = map_option (\<lambda>m. map (\<lambda>(k, h). (k, status h)) (components m)) (after cs)"

definition counters_after :: "call list \<Rightarrow> string \<Rightarrow> (int \<times> int) option" where
  "counters_after cs n = map_option (\<lambda>m. (errors_of m n, warnings_of m n)) (after cs)"

definition degraded_after :: "call list \<Rightarrow> bool option" where
  "degraded_after cs = map_option degraded_present (after cs)"

section \<open>Dictionaries\<close>

declare show_nat.simps [simp del]

lemma map_of_dict_set: "map_of (dict_set d k v) = (map_of d)(k \<mapsto> v)"
  by (induction d) (auto simp: fun_eq_iff)

lemma keys_dict_set: "fst ` set (dict_set d k v) = insert k (fst ` set d)"
proof -
  have "dom (map_of (dict_set d k v)) = insert k (dom (map_of d))"
    by (simp add: map_of_dict_set)
  then show ?thesis by (simp add: dom_map_of_conv_image_fst)
qed

lemma dict_set_absent: "map_of d k = None \<Longrightarrow> dict_set d k v = d @ [(k, v)]"
  by (induction d) (auto split: if_splits)

lemma dict_set_present: "map_of d k \<noteq> None \<Longrightarrow> map fst (dict_set d k v) = map fst d"
  by (induction d) (auto split: if_splits)

lemma map_add_same: "m ++ m = m"
  by (auto simp: map_add_def fun_eq_iff split: option.splits)

text \<open>\<open>update\<close> with a dictionary gives every key of that dictionary its value there.\<close>

lemma map_of_dict_update:
  "distinct (map fst other) \<Longrightarrow> map_of (dict_update d other) = map_of d ++ map_of other"
proof (induction other arbitrary: d)
  case Nil
  then show ?case by simp
next
  case (Cons p other)
  obtain k v where p: "p = (k, v)" by (cases p)
  from Cons.prems p have notin: "k \<notin> fst ` set other" and dist: "distinct (map fst other)"
    by auto
  have "map_of other k = None" using notin by (simp add: map_of_eq_None_iff)
  then show ?case
    using Cons.IH [OF dist, of "dict_set d k v"] p
    by (auto simp: map_of_dict_set fun_eq_iff map_add_def split: option.splits)
qed

section \<open>The \<open>mark_*\<close> methods\<close>

lemma update_system_status_components:
  "components (update_system_status m) = components m"
  by (simp add: update_system_status_def Let_def)

lemmas mark_defs = ensure_registered_def register_component_def getitem_def dict_contains_def
  now_def or_empty_def new_dict_def merge_metadata_def truthy_def update_obj_def Let_def split_def
  dict_get_def

lemma truthy_cases:
  obtains (truthy) a where "md = Some a" and "heap w a \<noteq> []" and "truthy w md"
  | (falsy) "arg_dict w md = []" and "\<not> truthy w md"
  by (cases md) (auto simp: truthy_def arg_dict_def)

text \<open>
  What each public method does to the registry: it returns normally, stores one record
  under the name it is given and, for the \<open>mark_*\<close> methods, recomputes the aggregate
  status from the updated components.
\<close>

lemma dict_set_twice: "dict_set (dict_set d k v) k v' = dict_set d k v'"
  by (induction d) auto

lemma list_ex_failed_or_degraded:
  "list_ex (\<lambda>c. status c = FAILED \<or> status c = DEGRADED) xs
     = (list_ex (\<lambda>s. s = FAILED) (map status xs) \<or> list_ex (\<lambda>s. s = DEGRADED) (map status xs))"
  by (induction xs) auto

lemma update_system_status_policy:
  "system_status (update_system_status m) = spec_policy (components m)"
  by (simp add: update_system_status_def spec_policy_def Let_def list_ex_failed_or_degraded)

lemmas effect_defs = mark_defs map_of_dict_set dict_set_twice errors_of_def warnings_of_def name_of_def

lemma mark_healthy_effect:
  "\<exists>h' w'. mark_healthy n md m w
       = Inr (update_system_status (m\<lparr>components := dict_set (components m) n h'\<rparr>), w')
     \<and> error_count h' = errors_of m n \<and> warning_count h' = warnings_of m n
     \<and> name h' = name_of m n \<and> status h' = HEALTHY"
proof (cases "map_of (components m) n")
  case None
  show ?thesis
    apply (intro exI conjI)
        apply (simp add: mark_healthy_def effect_defs None)
       apply (simp_all add: effect_defs None)
    done
next
  case (Some h)
  show ?thesis
    apply (intro exI conjI)
        apply (simp add: mark_healthy_def effect_defs Some)
       apply (simp_all add: effect_defs Some)
    done
qed

lemma mark_degraded_effect:
  "\<exists>h' w'. mark_degraded n e fb md m w
       = Inr (update_system_status (m\<lparr>components := dict_set (components m) n h'\<rparr>), w')
     \<and> error_count h' = errors_of m n \<and> warning_count h' = warnings_of m n + 1
     \<and> name h' = name_of m n \<and> status h' = DEGRADED"
proof (cases "map_of (components m) n")
  case None
  show ?thesis
    apply (intro exI conjI)
        apply (simp add: mark_degraded_def effect_defs None)
       apply (simp_all add: effect_defs None)
    done
next
  case (Some h)
  show ?thesis
    apply (intro exI conjI)
        apply (simp add: mark_degraded_def effect_defs Some)
       apply (simp_all add: effect_defs Some)
    done
qed

lemma mark_failed_effect:
  "\<exists>h' w'. mark_failed n e md m w
       = Inr (update_system_status (m\<lparr>components := dict_set (components m) n h'\<rparr>), w')
     \<and> error_count h' = errors_of m n + 1 \<and> warning_count h' = warnings_of m n
     \<and> name h' = name_of m n \<and> status h' = FAILED"
proof (cases "map_of (components m) n")
  case None
  show ?thesis
    apply (intro exI conjI)
        apply (simp add: mark_failed_def effect_defs None)
       apply (simp_all add: effect_defs None)
    done
next
  case (Some h)
  show ?thesis
    apply (intro exI conjI)
        apply (simp add: mark_failed_def effect_defs Some)
       apply (simp_all add: effect_defs Some)
    done
qed

lemma register_component_effect:
  "\<exists>h' w'. register_component n md m w = (m\<lparr>components := dict_set (components m) n h'\<rparr>, w')
     \<and> error_count h' = 0 \<and> warning_count h' = 0 \<and> name h' = n \<and> status h' = HEALTHY"
  apply (intro exI conjI)
      apply (simp add: register_component_def Let_def split_def)
     apply simp_all
  done

lemma get_component_health_effect:
  "(\<exists>h. map_of (components m) n = Some h \<and> get_component_health n m w = Inr (h, m, w))
   \<or> (\<exists>h' w'. map_of (components m) n = None
         \<and> get_component_health n m w = Inr (h', m\<lparr>components := dict_set (components m) n h'\<rparr>, w')
         \<and> error_count h' = 0 \<and> warning_count h' = 0 \<and> name h' = n \<and> status h' = UNKNOWN)"
proof (cases "map_of (components m) n")
  case None
  show ?thesis
    apply (rule disjI2)
    apply (intro exI conjI)
         apply (rule None)
        apply (simp add: get_component_health_def effect_defs None)
       apply simp_all
    done
next
  case (Some h)
  then show ?thesis
    by (simp add: get_component_health_def effect_defs)
qed

text \<open>
  C5. For every registry state and every name, \<open>mark_failed\<close> returns normally and leaves
  under that name a record with status \<open>FAILED\<close>, an error count one above the count
  before the call, the given message as last error, the clock reading of the call as
  its time, a later reading as the time of the last update, the supplied metadata
  merged into the metadata it had, and the fallback flag it had before the call.
\<close>

theorem mark_failed_record:
  assumes "distinct (dict_keys (arg_dict w md))"
  shows "\<exists>m' w' h'. mark_failed n e md m w = Inr (m', w') \<and> dict_get (components m') n = Some h'
     \<and> status h' = FAILED \<and> error_count h' = errors_of m n + 1
     \<and> last_error h' = e
     \<and> last_error_time h' = Some (clock w (ticks w + register_ticks m n))
     \<and> last_updated h' = clock w (ticks w + register_ticks m n + 1)
     \<and> map_of (heap w' (metadata h')) = map_of (metadata_of m w n) ++ map_of (arg_dict w md)
     \<and> fallback_active h' = fallback_of m n"
proof (cases "map_of (components m) n")
  case None
  show ?thesis
  proof (cases rule: truthy_cases [of md w])
    case (truthy a)
    from assms truthy have d: "distinct (map fst (heap w a))"
      by (simp add: arg_dict_def dict_keys_def)
    show ?thesis using None truthy
      by (simp add: mark_failed_def mark_defs map_of_dict_set update_system_status_components
          errors_of_def fallback_of_def metadata_of_def register_ticks_def arg_dict_def
          map_of_dict_update [OF d] map_add_same)
  next
    case falsy
    then show ?thesis using None
      by (auto simp add: mark_failed_def mark_defs map_of_dict_set update_system_status_components
          errors_of_def fallback_of_def metadata_of_def register_ticks_def split: option.splits)
  qed
next
  case (Some h)
  show ?thesis
  proof (cases rule: truthy_cases [of md w])
    case (truthy a)
    from assms truthy have d: "distinct (map fst (heap w a))"
      by (simp add: arg_dict_def dict_keys_def)
    show ?thesis using Some truthy
      by (simp add: mark_failed_def mark_defs map_of_dict_set update_system_status_components
          errors_of_def fallback_of_def metadata_of_def register_ticks_def arg_dict_def
          map_of_dict_update [OF d])
  next
    case falsy
    then show ?thesis using Some
      by (auto simp add: mark_failed_def mark_defs map_of_dict_set update_system_status_components
          errors_of_def fallback_of_def metadata_of_def register_ticks_def split: option.splits)
  qed
qed

theorem mark_failed_record_witness:
  "distinct (dict_keys (arg_dict world1 (Some 2)))
   \<and> (\<exists>m' w' h'. mark_failed ''x'' (Some ''boom'') (Some 2) monitor1 world1 = Inr (m', w')
         \<and> dict_get (components m') ''x'' = Some h'
         \<and> status h' = FAILED \<and> error_count h' = 3 \<and> last_error h' = Some ''boom''
         \<and> last_error_time h' = Some 0 \<and> last_updated h' = 1
         \<and> map_of (heap w' (metadata h')) = [''a'' \<mapsto> PInt 1, ''b'' \<mapsto> PInt 2]
         \<and> fallback_active h' = True)"
proof -
  have d: "distinct (dict_keys (arg_dict world1 (Some 2)))"
    by (simp add: arg_dict_def world1_def dict_keys_def)
  have e: "errors_of monitor1 ''x'' = 2" "fallback_of monitor1 ''x'' = True"
    "register_ticks monitor1 ''x'' = 0" "metadata_of monitor1 world1 ''x'' = [(''a'', PInt 1)]"
    "arg_dict world1 (Some 2) = [(''b'', PInt 2)]" "clock world1 = (\<lambda>n. int n)" "ticks world1 = 0"
    by (simp_all add: errors_of_def fallback_of_def register_ticks_def metadata_of_def
        arg_dict_def monitor1_def world1_def dict_get_def dict_contains_def)
  have m: "map_of [(''a'', PInt 1)] ++ map_of [(''b'', PInt 2)] = [''a'' \<mapsto> PInt 1, ''b'' \<mapsto> PInt 2]"
    by (auto simp: fun_eq_iff map_add_def)
  show ?thesis
    using d mark_failed_record [OF d, of "''x''" "Some ''boom''" monitor1]
    by (simp add: e m)
qed

section \<open>Counters\<close>

lemma errors_of_dict_set:
  "errors_of (m\<lparr>components := dict_set (components m) n' h'\<rparr>) n
     = (if n = n' then error_count h' else errors_of m n)"
  by (simp add: errors_of_def dict_get_def map_of_dict_set)

lemma warnings_of_dict_set:
  "warnings_of (m\<lparr>components := dict_set (components m) n' h'\<rparr>) n
     = (if n = n' then warning_count h' else warnings_of m n)"
  by (simp add: warnings_of_def dict_get_def map_of_dict_set)

lemma errors_of_update_system_status [simp]:
  "errors_of (update_system_status m) n = errors_of m n"
  by (simp add: errors_of_def update_system_status_components)

lemma warnings_of_update_system_status [simp]:
  "warnings_of (update_system_status m) n = warnings_of m n"
  by (simp add: warnings_of_def update_system_status_components)

lemma step_counters:
  "\<exists>m' w'. step c (m, w) = Inr (m', w')
     \<and> errors_of m' n = errors_after c n (errors_of m n)
     \<and> warnings_of m' n = warnings_after c n (warnings_of m n)"
proof (cases c)
  case (Register n' md)
  from register_component_effect [of n' md m w] show ?thesis
    using Register by (auto simp: errors_of_dict_set warnings_of_dict_set)
next
  case (MarkHealthy n' md)
  from mark_healthy_effect [of n' md m w] show ?thesis
    using MarkHealthy by (auto simp: errors_of_dict_set warnings_of_dict_set)
next
  case (MarkDegraded n' e fb md)
  from mark_degraded_effect [of n' e fb md m w] show ?thesis
    using MarkDegraded by (auto simp: errors_of_dict_set warnings_of_dict_set)
next
  case (MarkFailed n' e md)
  from mark_failed_effect [of n' e md m w] show ?thesis
    using MarkFailed by (auto simp: errors_of_dict_set warnings_of_dict_set)
next
  case (GetComponentHealth n')
  from get_component_health_effect [of m n' w] show ?thesis
  proof
    assume "\<exists>h. map_of (components m) n' = Some h \<and> get_component_health n' m w = Inr (h, m, w)"
    then show ?thesis using GetComponentHealth by auto
  next
    assume "\<exists>h' w'. map_of (components m) n' = None
         \<and> get_component_health n' m w = Inr (h', m\<lparr>components := dict_set (components m) n' h'\<rparr>, w')
         \<and> error_count h' = 0 \<and> warning_count h' = 0 \<and> name h' = n' \<and> status h' = UNKNOWN"
    then obtain h' w' where none: "map_of (components m) n' = None"
      and g: "get_component_health n' m w = Inr (h', m\<lparr>components := dict_set (components m) n' h'\<rparr>, w')"
      and z: "error_count h' = 0" "warning_count h' = 0" by blast
    from none have "errors_of m n' = 0" "warnings_of m n' = 0"
      by (simp_all add: errors_of_def warnings_of_def dict_get_def)
    then show ?thesis using GetComponentHealth g z
      by (simp add: errors_of_dict_set warnings_of_dict_set)
  qed
qed simp_all

lemma errors_after_mono: "\<not> is_register_of n c \<Longrightarrow> old \<le> errors_after c n old"
  by (cases c) auto

lemma warnings_after_mono: "\<not> is_register_of n c \<Longrightarrow> old \<le> warnings_after c n old"
  by (cases c) auto

lemma run_counters_mono:
  "list_all (\<lambda>c. \<not> is_register_of n c) cs \<Longrightarrow>
   \<exists>m' w'. run cs (m, w) = Inr (m', w')
     \<and> errors_of m n \<le> errors_of m' n \<and> warnings_of m n \<le> warnings_of m' n"
proof (induction cs arbitrary: m w)
  case Nil
  then show ?case by simp
next
  case (Cons c cs)
  from step_counters [of c m w n] obtain m1 w1 where
    s: "step c (m, w) = Inr (m1, w1)"
    and e: "errors_of m1 n = errors_after c n (errors_of m n)"
    and g: "warnings_of m1 n = warnings_after c n (warnings_of m n)" by blast
  from Cons.prems have c: "\<not> is_register_of n c" and cs: "list_all (\<lambda>c. \<not> is_register_of n c) cs"
    by simp_all
  from Cons.IH [OF cs, of m1 w1] obtain m' w' where
    r: "run cs (m1, w1) = Inr (m', w')"
    and e': "errors_of m1 n \<le> errors_of m' n" and g': "warnings_of m1 n \<le> warnings_of m' n"
    by blast
  from errors_after_mono [OF c, of "errors_of m n"] e e'
  have "errors_of m n \<le> errors_of m' n" by simp
  moreover from warnings_after_mono [OF c, of "warnings_of m n"] g g'
  have "warnings_of m n \<le> warnings_of m' n" by simp
  ultimately show ?case using s r by simp
qed

text \<open>
  C2, as the code has it. Every call returns normally and leaves in the counters of a
  name exactly what \<open>errors_after\<close> and \<open>warnings_after\<close> say: \<open>mark_failed\<close> of the name adds
  one error, \<open>mark_degraded\<close> of the name adds one warning, \<open>register_component\<close> of the
  name sets both to zero, and every other call leaves them alone. So over a sequence of
  calls that never registers the name, neither counter decreases.
\<close>

theorem counters_after_calls:
  "(\<exists>m' w'. step c (m, w) = Inr (m', w')
       \<and> errors_of m' n = errors_after c n (errors_of m n)
       \<and> warnings_of m' n = warnings_after c n (warnings_of m n))
   \<and> (list_all (\<lambda>c. \<not> is_register_of n c) cs \<longrightarrow>
        (\<exists>m' w'. run cs (m, w) = Inr (m', w')
           \<and> errors_of m n \<le> errors_of m' n \<and> warnings_of m n \<le> warnings_of m' n))"
  using step_counters [of c m w n] run_counters_mono [of n cs m w] by blast

text \<open>
  C2 as stated fails: after \<open>mark_failed("a")\<close> the error count of \<open>a\<close> is 1, and a following
  \<open>register_component("a")\<close> brings it back to 0.
\<close>

theorem counters_reset_by_register_counterexample:
  "counters_after [MarkFailed ''a'' None None] ''a'' = Some (1, 0)
   \<and> counters_after [MarkFailed ''a'' None None, Register ''a'' None] ''a'' = Some (0, 0)"
  by code_simp

theorem counters_after_calls_witness:
  "list_all (\<lambda>c. \<not> is_register_of ''x'' c)
     [MarkFailed ''x'' None None, MarkDegraded ''x'' None True None, GetComponentHealth ''x'']
   \<and> (\<exists>m' w'. step (MarkFailed ''x'' None None) (monitor1, world1) = Inr (m', w')
          \<and> errors_of m' ''x'' = 3 \<and> warnings_of m' ''x'' = 1)
   \<and> (\<exists>m' w'. run [MarkFailed ''x'' None None, MarkDegraded ''x'' None True None,
                     GetComponentHealth ''x''] (monitor1, world1) = Inr (m', w')
          \<and> 2 \<le> errors_of m' ''x'' \<and> 1 \<le> warnings_of m' ''x'')"
proof -
  have e: "errors_of monitor1 ''x'' = 2" "warnings_of monitor1 ''x'' = 1"
    by (simp_all add: errors_of_def warnings_of_def monitor1_def dict_get_def)
  show ?thesis
    using counters_after_calls [of "MarkFailed ''x'' None None" monitor1 world1 "''x''"
        "[MarkFailed ''x'' None None, MarkDegraded ''x'' None True None, GetComponentHealth ''x'']"]
    by (simp add: e)
qed

section \<open>The aggregate status\<close>

lemma dict_set_not_Nil: "dict_set d k v \<noteq> []"
  by (cases d) (auto split: if_splits)

lemma step_status:
  "\<exists>m' w'. step c (m, w) = Inr (m', w')
     \<and> system_status m' = (if is_mark c then spec_policy (components m') else system_status m)
     \<and> (is_mark c \<longrightarrow> components m' \<noteq> [])"
proof (cases c)
  case (Register n md)
  from register_component_effect [of n md m w] show ?thesis
    using Register by auto
next
  case (MarkHealthy n md)
  from mark_healthy_effect [of n md m w] show ?thesis
    using MarkHealthy
    by (auto simp: update_system_status_policy update_system_status_components dict_set_not_Nil)
next
  case (MarkDegraded n e fb md)
  from mark_degraded_effect [of n e fb md m w] show ?thesis
    using MarkDegraded
    by (auto simp: update_system_status_policy update_system_status_components dict_set_not_Nil)
next
  case (MarkFailed n e md)
  from mark_failed_effect [of n e md m w] show ?thesis
    using MarkFailed
    by (auto simp: update_system_status_policy update_system_status_components dict_set_not_Nil)
next
  case (GetComponentHealth n)
  from get_component_health_effect [of m n w] show ?thesis
    using GetComponentHealth by auto
qed simp_all

lemma spec_policy_stored:
  "components m \<noteq> [] \<Longrightarrow> spec_policy (components m) = stored_policy m"
  by (simp add: spec_policy_def stored_policy_def degraded_present_def)

lemma degraded_present_update_system_status [simp]:
  "degraded_present (update_system_status m) = degraded_present m"
  by (simp add: degraded_present_def update_system_status_components)

text \<open>Storing a record that is neither Failed nor Degraded adds no such component.\<close>

lemma degraded_present_dict_set:
  "status h' \<noteq> FAILED \<Longrightarrow> status h' \<noteq> DEGRADED \<Longrightarrow>
   degraded_present (m\<lparr>components := dict_set (components m) n h'\<rparr>) \<Longrightarrow> degraded_present m"
proof -
  assume h: "status h' \<noteq> FAILED" "status h' \<noteq> DEGRADED"
  have "list_ex (\<lambda>c. status c = FAILED \<or> status c = DEGRADED) (map snd (dict_set d n h')) \<Longrightarrow>
        list_ex (\<lambda>c. status c = FAILED \<or> status c = DEGRADED) (map snd d)" for d
    using h by (induction d) (auto split: if_splits)
  then show "degraded_present (m\<lparr>components := dict_set (components m) n h'\<rparr>) \<Longrightarrow>
             degraded_present m"
    by (simp add: degraded_present_def dict_values_def)
qed

text \<open>
  It changes nothing when the record it replaces, if any, is neither Failed nor Degraded.
\<close>

lemma degraded_present_dict_set_same:
  assumes "status h' \<noteq> FAILED" and "status h' \<noteq> DEGRADED"
    and "case dict_get (components m) n of
           None \<Rightarrow> True
         | Some h \<Rightarrow> status h \<noteq> FAILED \<and> status h \<noteq> DEGRADED"
  shows "degraded_present (m\<lparr>components := dict_set (components m) n h'\<rparr>) = degraded_present m"
proof -
  have "(case map_of d n of None \<Rightarrow> True
         | Some h \<Rightarrow> status h \<noteq> FAILED \<and> status h \<noteq> DEGRADED) \<Longrightarrow>
        list_ex (\<lambda>c. status c = FAILED \<or> status c = DEGRADED) (map snd (dict_set d n h'))
          = list_ex (\<lambda>c. status c = FAILED \<or> status c = DEGRADED) (map snd d)" for d
    using assms(1,2) by (induction d) (auto split: if_splits)
  then show ?thesis
    using assms(3) by (simp add: degraded_present_def dict_values_def dict_get_def)
qed

text \<open>What a \<open>mark_*\<close> call stores is the policy applied to the components it leaves.\<close>

lemma step_mark:
  "\<exists>m' w'. step c (m, w) = Inr (m', w')
     \<and> (is_mark c \<longrightarrow> components m' \<noteq> []
           \<and> system_status m' = spec_policy (components m')
           \<and> system_status m' = stored_policy m')"
proof -
  from step_status [of c m w] obtain m' w' where
    s: "step c (m, w) = Inr (m', w')"
    and p: "system_status m' = (if is_mark c then spec_policy (components m') else system_status m)"
    and n: "is_mark c \<longrightarrow> components m' \<noteq> []" by blast
  from p n have "is_mark c \<longrightarrow> components m' \<noteq> []
           \<and> system_status m' = spec_policy (components m')
           \<and> system_status m' = stored_policy m'"
    by (auto simp: spec_policy_stored)
  with s show ?thesis by blast
qed

text \<open>
  Two facts that every call keeps: the stored status is Healthy or Degraded, and it is
  Degraded when a component is Failed or Degraded.
\<close>

lemma step_degraded:
  assumes "system_status m = HEALTHY \<or> system_status m = DEGRADED"
    and "degraded_present m \<longrightarrow> system_status m = DEGRADED"
  shows "\<exists>m' w'. step c (m, w) = Inr (m', w')
     \<and> (system_status m' = HEALTHY \<or> system_status m' = DEGRADED)
     \<and> (degraded_present m' \<longrightarrow> system_status m' = DEGRADED)"
proof (cases "is_mark c")
  case True
  from step_mark [of c m w] True obtain m' w' where
    "step c (m, w) = Inr (m', w')" "system_status m' = stored_policy m'" by blast
  then show ?thesis by (auto simp: stored_policy_def)
next
  case False
  show ?thesis
  proof (cases c)
    case (Register n md)
    from register_component_effect [of n md m w] obtain h' w' where
      r: "register_component n md m w = (m\<lparr>components := dict_set (components m) n h'\<rparr>, w')"
      and h: "status h' = HEALTHY" by blast
    from h have "degraded_present (m\<lparr>components := dict_set (components m) n h'\<rparr>) \<longrightarrow>
                 degraded_present m"
      using degraded_present_dict_set [of h' m n] by simp
    then show ?thesis using Register r assms by auto
  next
    case (GetComponentHealth n)
    from get_component_health_effect [of m n w] show ?thesis
    proof
      assume "\<exists>h. map_of (components m) n = Some h \<and> get_component_health n m w = Inr (h, m, w)"
      then show ?thesis using GetComponentHealth assms by auto
    next
      assume "\<exists>h' w'. map_of (components m) n = None
         \<and> get_component_health n m w = Inr (h', m\<lparr>components := dict_set (components m) n h'\<rparr>, w')
         \<and> error_count h' = 0 \<and> warning_count h' = 0 \<and> name h' = n \<and> status h' = UNKNOWN"
      then obtain h' w' where
        g: "get_component_health n m w
              = Inr (h', m\<lparr>components := dict_set (components m) n h'\<rparr>, w')"
        and h: "status h' = UNKNOWN" by blast
      from h have "degraded_present (m\<lparr>components := dict_set (components m) n h'\<rparr>) \<longrightarrow>
                   degraded_present m"
        using degraded_present_dict_set [of h' m n] by simp
      then show ?thesis using GetComponentHealth g assms by auto
    qed
  qed (use False assms in simp_all)
qed

lemma run_degraded:
  "system_status m = HEALTHY \<or> system_status m = DEGRADED \<Longrightarrow>
   degraded_present m \<longrightarrow> system_status m = DEGRADED \<Longrightarrow>
   \<exists>m' w'. run cs (m, w) = Inr (m', w')
     \<and> (system_status m' = HEALTHY \<or> system_status m' = DEGRADED)
     \<and> (degraded_present m' \<longrightarrow> system_status m' = DEGRADED)"
proof (induction cs arbitrary: m w)
  case Nil
  then show ?case by simp
next
  case (Cons c cs)
  from step_degraded [OF Cons.prems, of c w] obtain m1 w1 where
    s: "step c (m, w) = Inr (m1, w1)"
    and a: "system_status m1 = HEALTHY \<or> system_status m1 = DEGRADED"
    and b: "degraded_present m1 \<longrightarrow> system_status m1 = DEGRADED" by blast
  from Cons.IH [OF a b, of w1] show ?case using s by simp
qed

text \<open>
  The stored status stays the policy of the components through every call but a
  \<open>register_component\<close> of a component that is Failed or Degraded.
\<close>

lemma step_exact:
  assumes "system_status m = stored_policy m" and "\<not> stale_register c m"
  shows "\<exists>m' w'. step c (m, w) = Inr (m', w') \<and> system_status m' = stored_policy m'"
proof (cases "is_mark c")
  case True
  from step_mark [of c m w] True show ?thesis by blast
next
  case False
  show ?thesis
  proof (cases c)
    case (Register n md)
    from register_component_effect [of n md m w] obtain h' w' where
      r: "register_component n md m w = (m\<lparr>components := dict_set (components m) n h'\<rparr>, w')"
      and h: "status h' = HEALTHY" by blast
    from assms(2) Register
    have "case dict_get (components m) n of
           None \<Rightarrow> True
         | Some h \<Rightarrow> status h \<noteq> FAILED \<and> status h \<noteq> DEGRADED"
      by (simp split: option.splits)
    with h have "degraded_present (m\<lparr>components := dict_set (components m) n h'\<rparr>)
                   = degraded_present m"
      by (intro degraded_present_dict_set_same) simp_all
    then show ?thesis using Register r assms(1) by (simp add: stored_policy_def)
  next
    case (GetComponentHealth n)
    from get_component_health_effect [of m n w] show ?thesis
    proof
      assume "\<exists>h. map_of (components m) n = Some h \<and> get_component_health n m w = Inr (h, m, w)"
      then show ?thesis using GetComponentHealth assms(1) by auto
    next
      assume "\<exists>h' w'. map_of (components m) n = None
         \<and> get_component_health n m w = Inr (h', m\<lparr>components := dict_set (components m) n h'\<rparr>, w')
         \<and> error_count h' = 0 \<and> warning_count h' = 0 \<and> name h' = n \<and> status h' = UNKNOWN"
      then obtain h' w' where none: "map_of (components m) n = None"
        and g: "get_component_health n m w
              = Inr (h', m\<lparr>components := dict_set (components m) n h'\<rparr>, w')"
        and h: "status h' = UNKNOWN" by blast
      from none h have "degraded_present (m\<lparr>components := dict_set (components m) n h'\<rparr>)
                   = degraded_present m"
        by (intro degraded_present_dict_set_same) (simp_all add: dict_get_def)
      then show ?thesis using GetComponentHealth g assms(1) by (simp add: stored_policy_def)
    qed
  qed (use False assms(1) in \<open>simp_all add: stored_policy_def degraded_present_def\<close>)
qed

lemma run_exact:
  "system_status m = stored_policy m \<Longrightarrow> no_stale_register cs (m, w) \<Longrightarrow>
   \<exists>m' w'. run cs (m, w) = Inr (m', w') \<and> system_status m' = stored_policy m'"
proof (induction cs arbitrary: m w)
  case Nil
  then show ?case by simp
next
  case (Cons c cs)
  from Cons.prems(2) have ns: "\<not> stale_register c m" by simp
  from step_exact [OF Cons.prems(1) ns, of w] obtain m1 w1 where
    s: "step c (m, w) = Inr (m1, w1)" and e: "system_status m1 = stored_policy m1" by blast
  from Cons.prems(2) s have r: "no_stale_register cs (m1, w1)" by simp
  from Cons.IH [OF e r] show ?case using s by simp
qed

text \<open>
  C1, as the code has it. A newly constructed registry stores \<open>HEALTHY\<close>. After every
  sequence of calls on it, all of which return normally, the stored aggregate status is
  Healthy or Degraded, never Unknown or Failed, and it is Degraded when at least one
  component is Failed or Degraded. After \<open>mark_healthy\<close>, \<open>mark_degraded\<close> and \<open>mark_failed\<close>,
  which leave at least one component, it is the policy applied to the components of that
  moment: Degraded when a component is Failed or Degraded and Healthy otherwise. And from
  a state where it is that policy, it is that policy again after every sequence of calls
  in which \<open>register_component\<close> is not called on a component that is Failed or Degraded
  at that moment.
\<close>

theorem aggregate_after_calls:
  "system_status init_monitor = HEALTHY
   \<and> (\<exists>m' w'. run cs (init_monitor, w0) = Inr (m', w')
        \<and> (system_status m' = HEALTHY \<or> system_status m' = DEGRADED)
        \<and> (degraded_present m' \<longrightarrow> system_status m' = DEGRADED))
   \<and> (\<exists>m' w'. step c (m, w) = Inr (m', w')
        \<and> (is_mark c \<longrightarrow> components m' \<noteq> []
              \<and> system_status m' = spec_policy (components m')
              \<and> system_status m' = stored_policy m'))
   \<and> (system_status m = stored_policy m \<and> no_stale_register ds (m, w) \<longrightarrow>
        (\<exists>m' w'. run ds (m, w) = Inr (m', w') \<and> system_status m' = stored_policy m'))"
proof -
  have i: "system_status init_monitor = HEALTHY \<or> system_status init_monitor = DEGRADED"
    "degraded_present init_monitor \<longrightarrow> system_status init_monitor = DEGRADED"
    by (simp_all add: init_monitor_def degraded_present_def dict_values_def)
  show ?thesis
    using run_degraded [OF i, of cs w0] step_mark [of c m w] run_exact [of m ds w]
    by (simp add: init_monitor_def)
qed

theorem aggregate_after_calls_witness:
  "system_status init_monitor = HEALTHY
   \<and> degraded_after [MarkFailed ''a'' None None, GetComponentHealth ''b'', Register ''c'' None]
        = Some True
   \<and> status_after [MarkFailed ''a'' None None, GetComponentHealth ''b'', Register ''c'' None]
        = Some DEGRADED
   \<and> is_mark (MarkHealthy ''y'' None)
   \<and> (\<exists>m' w'. step (MarkHealthy ''y'' None) (monitor1, world1) = Inr (m', w')
          \<and> components m' \<noteq> []
          \<and> system_status m' = spec_policy (components m')
          \<and> system_status m' = stored_policy m')
   \<and> system_status monitor1 = stored_policy monitor1
   \<and> no_stale_register [MarkHealthy ''x'' None, Register ''x'' None] (monitor1, world1)
   \<and> (\<exists>m' w'. run [MarkHealthy ''x'' None, Register ''x'' None] (monitor1, world1) = Inr (m', w')
          \<and> system_status m' = stored_policy m')"
proof -
  let ?cs = "[MarkFailed ''a'' None None, GetComponentHealth ''b'', Register ''c'' None]"
  let ?ds = "[MarkHealthy ''x'' None, Register ''x'' None]"
  have d: "degraded_after ?cs = Some True" by code_simp
  have e: "system_status monitor1 = stored_policy monitor1"
    by (simp add: monitor1_def stored_policy_def degraded_present_def dict_values_def)
  have n: "no_stale_register ?ds (monitor1, world1)" by code_simp
  note t = aggregate_after_calls [of ?cs world0 "MarkHealthy ''y'' None" monitor1 world1 ?ds]
  from t obtain m' w' where
    r: "run ?cs (init_monitor, world0) = Inr (m', w')"
    and g: "degraded_present m' \<longrightarrow> system_status m' = DEGRADED" by blast
  from r have a: "after ?cs = Some m'" by (simp add: after_def)
  with d have "degraded_present m'" by (simp add: degraded_after_def)
  with g a have s: "status_after ?cs = Some DEGRADED" by (simp add: status_after_def)
  show ?thesis using t d s e n by simp
qed

text \<open>
  C1 as stated fails. A new registry has no component and stores \<open>HEALTHY\<close>, where the
  policy gives Unknown; a registry whose only component is the Unknown one registered by
  \<open>get_component_health\<close> stores \<open>HEALTHY\<close>; and after \<open>mark_failed("a")\<close> followed by
  \<open>register_component("a")\<close> the only component is Healthy while the stored status is
  still \<open>DEGRADED\<close>.
\<close>

theorem aggregate_status_counterexample:
  "status_after [] = Some HEALTHY \<and> policy_after [] = Some UNKNOWN
   \<and> statuses_after [GetComponentHealth ''x''] = Some [(''x'', UNKNOWN)]
   \<and> status_after [GetComponentHealth ''x''] = Some HEALTHY
   \<and> statuses_after [MarkFailed ''a'' None None, Register ''a'' None] = Some [(''a'', HEALTHY)]
   \<and> status_after [MarkFailed ''a'' None None, Register ''a'' None] = Some DEGRADED
   \<and> policy_after [MarkFailed ''a'' None None, Register ''a'' None] = Some HEALTHY"
  by code_simp

section \<open>Merging metadata\<close>

text \<open>
  C7. For a component \<open>c\<close> that has a record, \<open>mark_healthy\<close> returns normally, sets the
  status to \<open>HEALTHY\<close>, clears the fallback flag and keeps the metadata object, whose
  contents become the merge: a key of the supplied metadata has the supplied value,
  every other key has the value it had. The instance that follows is the example of the
  specification: \<open>register("c", {"a": 1})\<close> then \<open>mark_healthy("c", {"b": 2})\<close> gives
  \<open>{"a": 1, "b": 2}\<close>.
\<close>

theorem mark_healthy_merge:
  assumes "dict_get (components m) c = Some h" and "distinct (dict_keys (arg_dict w md))"
  shows "\<exists>m' w' h'. mark_healthy c md m w = Inr (m', w') \<and> dict_get (components m') c = Some h'
     \<and> status h' = HEALTHY \<and> \<not> fallback_active h' \<and> metadata h' = metadata h
     \<and> (\<forall>k. dict_get (heap w' (metadata h')) k
            = (case dict_get (arg_dict w md) k of
                 Some v \<Rightarrow> Some v
               | None \<Rightarrow> dict_get (heap w (metadata h)) k))"
proof (cases rule: truthy_cases [of md w])
  case (truthy a)
  from assms truthy have d: "distinct (map fst (heap w a))"
    by (simp add: arg_dict_def dict_keys_def)
  show ?thesis using assms(1) truthy
    by (simp add: mark_healthy_def mark_defs map_of_dict_set update_system_status_components
        arg_dict_def map_of_dict_update [OF d] map_add_def cong: option.case_cong)
next
  case falsy
  then show ?thesis using assms(1)
    by (auto simp add: mark_healthy_def mark_defs map_of_dict_set update_system_status_components
        split: option.splits)
qed

theorem mark_healthy_merge_witness:
  "(case registered_c of (m, w, b) \<Rightarrow>
      dict_get (components m) ''c''
        = Some \<lparr>name = ''c'', status = HEALTHY, last_updated = 0, error_count = 0,
                warning_count = 0, last_error = None, last_error_time = None,
                fallback_active = False, metadata = 0\<rparr>
      \<and> heap w 0 = [(''a'', PInt 1)]
      \<and> arg_dict w (Some b) = [(''b'', PInt 2)]
      \<and> distinct (dict_keys (arg_dict w (Some b)))
      \<and> (\<exists>m' w' h'. mark_healthy ''c'' (Some b) m w = Inr (m', w')
            \<and> dict_get (components m') ''c'' = Some h'
            \<and> status h' = HEALTHY \<and> \<not> fallback_active h'
            \<and> map_of (heap w' (metadata h')) = [''a'' \<mapsto> PInt 1, ''b'' \<mapsto> PInt 2]))"
proof -
  obtain m w b where r: "registered_c = (m, w, b)" by (cases registered_c)
  have c: "dict_get (components m) ''c''
        = Some \<lparr>name = ''c'', status = HEALTHY, last_updated = 0, error_count = 0,
                warning_count = 0, last_error = None, last_error_time = None,
                fallback_active = False, metadata = 0\<rparr>"
    and a: "heap w 0 = [(''a'', PInt 1)]"
    and n: "arg_dict w (Some b) = [(''b'', PInt 2)]"
    using r by (auto simp: registered_c_def register_component_def init_monitor_def world0_def
        now_def or_empty_def new_dict_def Let_def dict_get_def arg_dict_def)
  have d: "distinct (dict_keys (arg_dict w (Some b)))"
    by (simp add: n dict_keys_def)
  from mark_healthy_merge [OF c d]
  have "\<exists>m' w' h'. mark_healthy ''c'' (Some b) m w = Inr (m', w')
     \<and> dict_get (components m') ''c'' = Some h'
     \<and> status h' = HEALTHY \<and> \<not> fallback_active h' \<and> metadata h' = 0
     \<and> (\<forall>k. dict_get (heap w' (metadata h')) k
            = (case dict_get (arg_dict w (Some b)) k of
                 Some v \<Rightarrow> Some v
               | None \<Rightarrow> dict_get (heap w 0) k))"
    by (simp cong: option.case_cong)
  then obtain m' w' h' where
    mh: "mark_healthy ''c'' (Some b) m w = Inr (m', w')"
    and g: "dict_get (components m') ''c'' = Some h'"
    and st: "status h' = HEALTHY" "\<not> fallback_active h'"
    and md: "metadata h' = 0"
    and k: "\<And>k. dict_get (heap w' (metadata h')) k
            = (case dict_get (arg_dict w (Some b)) k of
                 Some v \<Rightarrow> Some v
               | None \<Rightarrow> dict_get (heap w 0) k)"
    by blast
  have mm: "map_of (heap w' (metadata h')) = [''a'' \<mapsto> PInt 1, ''b'' \<mapsto> PInt 2]"
    using k by (auto simp: fun_eq_iff n a dict_get_def)
  show ?thesis unfolding r prod.case using c a n d mh g st mm by blast
qed

section \<open>Snapshots of the registry\<close>

lemma extends_refl: "extends w w"
  by (simp add: extends_def)

lemma extends_trans: "extends w w1 \<Longrightarrow> extends w1 w2 \<Longrightarrow> extends w w2"
  by (auto simp: extends_def)

lemma now_extends: "extends w (snd (now w))"
  by (simp add: extends_def now_def)

lemma new_dict_extends: "extends w (snd (new_dict d w))"
  by (simp add: extends_def new_dict_def)

lemma or_empty_extends: "extends w (snd (or_empty md w))"
  by (auto simp: or_empty_def new_dict_extends extends_refl split: option.splits)

lemma to_dict_eq: "to_dict h w = (entry_of h (fst (or_empty (Some (metadata h)) w)),
                                   snd (or_empty (Some (metadata h)) w))"
  by (simp add: to_dict_def entry_of_def split_def Let_def)

lemma to_dict_extends: "extends w (snd (to_dict h w))"
  by (simp add: to_dict_eq or_empty_extends)

lemma to_dict_ref:
  "extends w0 w \<Longrightarrow> metadata h < next_addr w0 \<Longrightarrow>
   \<exists>a. fst (to_dict h w) = entry_of h a
     \<and> (heap w0 (metadata h) \<noteq> [] \<longrightarrow> a = metadata h)
     \<and> (heap w0 (metadata h) = [] \<longrightarrow> next_addr w0 \<le> a \<and> a < next_addr (snd (to_dict h w)))"
  by (auto simp: to_dict_eq or_empty_def new_dict_def extends_def)

lemma to_dict_items_extends: "extends w (snd (to_dict_items items acc w))"
proof (induction items arbitrary: acc w)
  case Nil
  then show ?case by (simp add: extends_refl)
next
  case (Cons p items)
  obtain n h where p: "p = (n, h)" by (cases p)
  show ?case
    using extends_trans [OF to_dict_extends [of w h]
        Cons.IH [of "snd (to_dict h w)" "dict_set acc n (fst (to_dict h w))"]]
    by (simp add: p split_def Let_def)
qed

lemma to_dict_items_keys:
  "distinct (map fst items) \<Longrightarrow> set (map fst items) \<inter> set (map fst acc) = {} \<Longrightarrow>
   map fst (fst (to_dict_items items acc w)) = map fst acc @ map fst items"
proof (induction items arbitrary: acc w)
  case Nil
  then show ?case by simp
next
  case (Cons p items)
  obtain n h where p: "p = (n, h)" by (cases p)
  from Cons.prems p have nacc: "map_of acc n = None"
    by (auto simp: map_of_eq_None_iff)
  let ?acc = "dict_set acc n (fst (to_dict h w))"
  have acc': "?acc = acc @ [(n, fst (to_dict h w))]"
    using nacc by (rule dict_set_absent)
  from Cons.prems p have d: "distinct (map fst items)"
    and i: "set (map fst items) \<inter> set (map fst ?acc) = {}"
    by (auto simp: acc')
  show ?case
    using Cons.IH [OF d i, of "snd (to_dict h w)"] by (simp add: p split_def acc' Let_def)
qed

lemma to_dict_items_other:
  "map_of items n = None \<Longrightarrow> map_of (fst (to_dict_items items acc w)) n = map_of acc n"
proof (induction items arbitrary: acc w)
  case Nil
  then show ?case by simp
next
  case (Cons p items)
  obtain n' h' where p: "p = (n', h')" by (cases p)
  from Cons.prems p have ne: "n' \<noteq> n" and rest: "map_of items n = None"
    by (auto split: if_splits)
  show ?case
    using Cons.IH [OF rest, of "dict_set acc n' (fst (to_dict h' w))" "snd (to_dict h' w)"] ne
    by (simp add: p split_def Let_def map_of_dict_set)
qed

text \<open>The entry of a name in the snapshot is the one built from its record.\<close>

lemma to_dict_items_lookup:
  "distinct (map fst items) \<Longrightarrow> map_of items n = Some h \<Longrightarrow>
   list_all (\<lambda>h. metadata h < next_addr w0) (map snd items) \<Longrightarrow> extends w0 w \<Longrightarrow>
   \<exists>a. map_of (fst (to_dict_items items acc w)) n = Some (entry_of h a)
     \<and> (heap w0 (metadata h) \<noteq> [] \<longrightarrow> a = metadata h)
     \<and> (heap w0 (metadata h) = [] \<longrightarrow>
           next_addr w0 \<le> a \<and> a < next_addr (snd (to_dict_items items acc w)))"
proof (induction items arbitrary: acc w)
  case Nil
  then show ?case by simp
next
  case (Cons p items)
  obtain n' h' where p: "p = (n', h')" by (cases p)
  let ?w1 = "snd (to_dict h' w)"
  let ?acc = "dict_set acc n' (fst (to_dict h' w))"
  have step: "to_dict_items (p # items) acc w = to_dict_items items ?acc ?w1"
    by (simp add: p split_def Let_def)
  have ext1: "extends w0 ?w1"
    using extends_trans [OF Cons.prems(4) to_dict_extends] .
  show ?case
  proof (cases "n' = n")
    case True
    with Cons.prems p have h: "h' = h" and rest: "map_of items n = None"
      and alloc: "metadata h < next_addr w0"
      by (auto simp: map_of_eq_None_iff)
    from to_dict_ref [OF Cons.prems(4) alloc] obtain a where
      a: "fst (to_dict h w) = entry_of h a"
      "heap w0 (metadata h) \<noteq> [] \<longrightarrow> a = metadata h"
      "heap w0 (metadata h) = [] \<longrightarrow> next_addr w0 \<le> a \<and> a < next_addr (snd (to_dict h w))"
      by blast
    have "next_addr ?w1 \<le> next_addr (snd (to_dict_items items ?acc ?w1))"
      using to_dict_items_extends [of ?w1 items ?acc] by (simp add: extends_def)
    then show ?thesis
      using a True h to_dict_items_other [OF rest, of ?acc ?w1]
      by (auto simp: step map_of_dict_set intro!: exI [of _ a])
  next
    case False
    with Cons.prems p have d: "distinct (map fst items)" and l: "map_of items n = Some h"
      and al: "list_all (\<lambda>h. metadata h < next_addr w0) (map snd items)"
      by auto
    from Cons.IH [OF d l al ext1, of ?acc] show ?thesis by (simp add: step)
  qed
qed

lemma resource_component_extends:
  "resource_component g w = Returns (rc, w') \<Longrightarrow> extends w w'"
  by (auto simp: resource_component_def Let_def split_def now_def new_dict_def extends_def
      split: outcome.splits)

lemma unavailable_component_extends: "extends w (snd (unavailable_component e w))"
  by (simp add: unavailable_component_def Let_def split_def now_def new_dict_def extends_def)

text \<open>The record from which the \<open>system_resources\<close> entry is built.\<close>

lemma resource_component_status:
  "resource_component g w = Returns (rc, w') \<Longrightarrow>
   collaborator_failure g = None \<and> uncaught g = None \<and> last_error rc = None
   \<and> status rc = (if collaborator_overall g = Some (PStr ''critical'') then FAILED
                   else if collaborator_overall g = Some (PStr ''warning'') then DEGRADED
                   else HEALTHY)"
  by (auto simp: resource_component_def collaborator_failure_def collaborator_overall_def
      uncaught_def Let_def split_def new_dict_def dict_get_def split: outcome.splits)

lemma resource_component_raises:
  "resource_component g w = Raises e \<Longrightarrow> collaborator_failure g = Some e \<and> uncaught g = None"
  by (auto simp: resource_component_def collaborator_failure_def uncaught_def Let_def split_def
      split: outcome.splits)

lemma resource_component_escapes:
  "resource_component g w = RaisesBase b \<Longrightarrow> uncaught g = Some b"
  by (auto simp: resource_component_def uncaught_def Let_def split_def split: outcome.splits)

lemma unavailable_component_status:
  "status (fst (unavailable_component e w)) = UNKNOWN
   \<and> last_error (fst (unavailable_component e w)) = Some e"
  by (simp add: unavailable_component_def Let_def split_def)

text \<open>
  \<open>get_all_health\<close> in two cases: it passes on what the handler does not catch, or it
  returns the entries of the components followed by the synthetic one.
\<close>

lemma get_all_health_cases:
  obtains (escapes) b where "uncaught g = Some b"
      and "get_all_health g m w = (RaisesBase b, snd (to_dict_items (components m) [] w))"
  | (returns) rc w2 where "uncaught g = None"
      and "get_all_health g m w
             = (Returns (dict_set (fst (to_dict_items (components m) [] w)) ''system_resources''
                          (fst (to_dict rc w2))),
                snd (to_dict rc w2))"
      and "extends (snd (to_dict_items (components m) [] w)) w2"
      and "last_error rc = collaborator_failure g"
      and "status rc =
             (case collaborator_failure g of
                Some e \<Rightarrow> UNKNOWN
              | None \<Rightarrow> if collaborator_overall g = Some (PStr ''critical'') then FAILED
                        else if collaborator_overall g = Some (PStr ''warning'') then DEGRADED
                        else HEALTHY)"
proof (cases "resource_component g (snd (to_dict_items (components m) [] w))")
  case (Raises e)
  let ?w1 = "snd (to_dict_items (components m) [] w)"
  let ?rc = "fst (unavailable_component e ?w1)"
  let ?w2 = "snd (unavailable_component e ?w1)"
  from resource_component_raises [OF Raises]
  have f: "collaborator_failure g = Some e" and u: "uncaught g = None" by simp_all
  have "get_all_health g m w
          = (Returns (dict_set (fst (to_dict_items (components m) [] w)) ''system_resources''
                       (fst (to_dict ?rc ?w2))),
             snd (to_dict ?rc ?w2))"
    by (simp add: get_all_health_def Raises Let_def split_def)
  then show ?thesis
    using u f unavailable_component_extends [of ?w1 e] unavailable_component_status [of e ?w1]
    by (intro returns [of ?rc ?w2]) simp_all
next
  case (RaisesBase b)
  from resource_component_escapes [OF RaisesBase] have "uncaught g = Some b" .
  then show ?thesis
    by (intro escapes [of b]) (simp_all add: get_all_health_def RaisesBase Let_def split_def)
next
  case (Returns r)
  obtain rc w2 where r: "r = (rc, w2)" by (cases r)
  from Returns r
  have rr: "resource_component g (snd (to_dict_items (components m) [] w)) = Returns (rc, w2)"
    by simp
  from resource_component_status [OF rr] resource_component_extends [OF rr]
  show ?thesis
    by (intro returns [of rc w2]) (simp_all add: get_all_health_def rr Let_def split_def)
qed

lemma get_all_health_extends: "extends w (snd (get_all_health g m w))"
proof (cases rule: get_all_health_cases [of g m w])
  case (escapes b)
  then show ?thesis by (simp add: to_dict_items_extends)
next
  case (returns rc w2)
  show ?thesis
    unfolding returns(2) snd_conv
    by (rule extends_trans [OF to_dict_items_extends extends_trans [OF returns(3) to_dict_extends]])
qed

text \<open>
  C4, as the code has it. When what the collaborator raises first is outside
  \<open>Exception\<close>, \<open>get_all_health\<close> passes it on to its caller. In every other case it
  returns a snapshot with an entry \<open>system_resources\<close>: when a call to the collaborator
  raises an \<open>Exception\<close>, the status of the entry is \<open>unknown\<close> and its \<open>last_error\<close> is the
  text of the exception; when the collaborator succeeds, the status is \<open>failed\<close> for the
  verdict \<open>critical\<close>, \<open>degraded\<close> for \<open>warning\<close> and \<open>healthy\<close> otherwise, so for \<open>ok\<close>, and
  \<open>last_error\<close> is \<open>None\<close>.
\<close>

theorem resource_entry:
  "(case uncaught g of
      Some b \<Rightarrow> fst (get_all_health g m w) = RaisesBase b
    | None \<Rightarrow>
        (\<exists>r d. fst (get_all_health g m w) = Returns r
           \<and> dict_get r ''system_resources'' = Some d
           \<and> dict_get d ''status'' = Some (PStr
                (case collaborator_failure g of
                   Some e \<Rightarrow> ''unknown''
                 | None \<Rightarrow> if collaborator_overall g = Some (PStr ''critical'') then ''failed''
                           else if collaborator_overall g = Some (PStr ''warning'')
                           then ''degraded'' else ''healthy''))
           \<and> dict_get d ''last_error''
                = Some (case collaborator_failure g of Some e \<Rightarrow> PStr e | None \<Rightarrow> PNone)))"
proof (cases rule: get_all_health_cases [of g m w])
  case (escapes b)
  then show ?thesis by simp
next
  case (returns rc w2)
  then show ?thesis
    by (simp add: dict_get_def map_of_dict_set to_dict_eq entry_of_def opt_str_def
        split: option.splits)
qed

text \<open>
  C4 as stated fails: the handler is \<open>except Exception\<close>, so when
  \<open>get_resource_monitor()\<close> is interrupted by \<open>KeyboardInterrupt\<close>, or the health check
  ends in \<open>SystemExit\<close>, \<open>get_all_health\<close> raises and returns no snapshot.
\<close>

theorem resource_entry_counterexample:
  "fst (get_all_health (RaisesBase ''KeyboardInterrupt'') monitor1 world1)
     = RaisesBase ''KeyboardInterrupt''
   \<and> fst (get_all_health check_exits monitor1 world1) = RaisesBase ''SystemExit''"
  by (simp add: get_all_health_def resource_component_def check_exits_def split_def Let_def)

theorem resource_entry_witness:
  "uncaught (Raises ''no psutil'') = None
   \<and> (\<exists>r d. fst (get_all_health (Raises ''no psutil'') monitor1 world1) = Returns r
        \<and> dict_get r ''system_resources'' = Some d
        \<and> dict_get d ''status'' = Some (PStr ''unknown'')
        \<and> dict_get d ''last_error'' = Some (PStr ''no psutil''))
   \<and> uncaught (metrics_raise ''timeout'') = None
   \<and> (\<exists>r d. fst (get_all_health (metrics_raise ''timeout'') monitor1 world1) = Returns r
        \<and> dict_get r ''system_resources'' = Some d
        \<and> dict_get d ''status'' = Some (PStr ''unknown'')
        \<and> dict_get d ''last_error'' = Some (PStr ''timeout''))
   \<and> uncaught (monitor_reports ''ok'') = None
   \<and> (\<exists>r d. fst (get_all_health (monitor_reports ''ok'') monitor1 world1) = Returns r
        \<and> dict_get r ''system_resources'' = Some d
        \<and> dict_get d ''status'' = Some (PStr ''healthy''))
   \<and> (\<exists>r d. fst (get_all_health (monitor_reports ''warning'') monitor1 world1) = Returns r
        \<and> dict_get r ''system_resources'' = Some d
        \<and> dict_get d ''status'' = Some (PStr ''degraded''))
   \<and> (\<exists>r d. fst (get_all_health (monitor_reports ''critical'') monitor1 world1) = Returns r
        \<and> dict_get r ''system_resources'' = Some d
        \<and> dict_get d ''status'' = Some (PStr ''failed''))
   \<and> uncaught check_exits = Some ''SystemExit''
   \<and> fst (get_all_health check_exits monitor1 world1) = RaisesBase ''SystemExit''"
proof -
  have cf: "collaborator_failure (Raises ''no psutil'') = Some ''no psutil''"
    "collaborator_failure (metrics_raise ''timeout'') = Some ''timeout''"
    "\<And>v. collaborator_failure (monitor_reports v) = None"
    "\<And>v. collaborator_overall (monitor_reports v) = Some (PStr v)"
    "uncaught (Raises ''no psutil'') = None"
    "uncaught (metrics_raise ''timeout'') = None"
    "\<And>v. uncaught (monitor_reports v) = None"
    "uncaught check_exits = Some ''SystemExit''"
    by (simp_all add: collaborator_failure_def collaborator_overall_def uncaught_def
        monitor_reports_def metrics_raise_def check_exits_def dict_get_def)
  show ?thesis
    using resource_entry [of "Raises ''no psutil''" monitor1 world1]
      resource_entry [of "metrics_raise ''timeout''" monitor1 world1]
      resource_entry [of "monitor_reports ''ok''" monitor1 world1]
      resource_entry [of "monitor_reports ''warning''" monitor1 world1]
      resource_entry [of "monitor_reports ''critical''" monitor1 world1]
      resource_entry [of check_exits monitor1 world1]
    by (auto simp: cf)
qed

lemma get_all_health_keys:
  assumes "distinct (dict_keys (components m))"
    and "''system_resources'' \<notin> set (dict_keys (components m))"
    and "fst (get_all_health g m w) = Returns r"
  shows "dict_keys r = dict_keys (components m) @ [''system_resources'']"
proof (cases rule: get_all_health_cases [of g m w])
  case (escapes b)
  with assms(3) show ?thesis by simp
next
  case (returns rc w2)
  let ?hd = "fst (to_dict_items (components m) [] w)"
  have k: "map fst ?hd = map fst (components m)"
    using to_dict_items_keys [of "components m" "[]" w] assms(1) by (simp add: dict_keys_def)
  then have "map_of ?hd ''system_resources'' = None"
    using assms(2) by (simp add: map_of_eq_None_iff dict_keys_def flip: set_map)
  then show ?thesis
    using assms(3) returns(2) by (auto simp: dict_set_absent dict_keys_def k)
qed

text \<open>\<open>get_system_status\<close> in the same two cases.\<close>

lemma get_system_status_cases:
  obtains (escapes) b where "uncaught g = Some b"
      and "fst (get_system_status g m w) = RaisesBase b"
  | (returns) r where "uncaught g = None"
      and "fst (get_all_health g m (snd (now w))) = Returns r"
      and "fst (get_system_status g m w)
             = Returns \<lparr>overall_status = status_value (system_status m),
                        timestamp = fst (now w),
                        component_counts =
                          [(''healthy'', count_status HEALTHY m),
                           (''degraded'', count_status DEGRADED m),
                           (''failed'', count_status FAILED m),
                           (''total'', int (length (components m)))],
                        report_components = r\<rparr>"
proof (cases rule: get_all_health_cases [of g m "snd (now w)"])
  case (escapes b)
  show ?thesis
    by (rule that(1) [of b]) (simp_all add: escapes get_system_status_def Let_def split_def)
next
  case (returns rc w2)
  show ?thesis
    by (rule that(2)) (simp_all add: returns get_system_status_def Let_def split_def)
qed

text \<open>
  C10. In a registry that holds no record named \<open>system_resources\<close>, \<open>get_system_status\<close>
  passes on what the collaborator raises outside \<open>Exception\<close>, and in every other case
  returns a report whose snapshot under \<open>"components"\<close> has the names of the stored
  records followed by \<open>system_resources\<close>, hence one entry more than
  \<open>component_counts["total"]\<close>; the counts \<open>healthy\<close>, \<open>degraded\<close>, \<open>failed\<close> and \<open>total\<close> are
  taken over the stored records only.
\<close>

theorem system_status_counts:
  assumes "distinct (dict_keys (components m))"
    and "''system_resources'' \<notin> set (dict_keys (components m))"
  shows "(case uncaught g of
            Some b \<Rightarrow> fst (get_system_status g m w) = RaisesBase b
          | None \<Rightarrow>
             (\<exists>r. fst (get_system_status g m w) = Returns r
                \<and> dict_keys (report_components r) = dict_keys (components m) @ [''system_resources'']
                \<and> dict_get (component_counts r) ''total'' = Some (int (length (components m)))
                \<and> int (length (report_components r)) = int (length (components m)) + 1
                \<and> dict_get (component_counts r) ''healthy'' = Some (count_status HEALTHY m)
                \<and> dict_get (component_counts r) ''degraded'' = Some (count_status DEGRADED m)
                \<and> dict_get (component_counts r) ''failed'' = Some (count_status FAILED m)))"
proof (cases rule: get_system_status_cases [of g m w])
  case (escapes b)
  then show ?thesis by simp
next
  case (returns r)
  have k: "dict_keys r = dict_keys (components m) @ [''system_resources'']"
    using assms returns(2) by (rule get_all_health_keys)
  have "length (dict_keys r) = length (components m) + 1"
    unfolding k by (simp add: dict_keys_def)
  then have l: "length r = length (components m) + 1"
    by (simp add: dict_keys_def)
  show ?thesis
    using returns(1,3) k l by (simp add: dict_get_def)
qed

theorem system_status_counts_witness:
  "distinct (dict_keys (components monitor1))
   \<and> ''system_resources'' \<notin> set (dict_keys (components monitor1))
   \<and> uncaught (monitor_reports ''ok'') = None
   \<and> (\<exists>r. fst (get_system_status (monitor_reports ''ok'') monitor1 world1) = Returns r
        \<and> dict_keys (report_components r) = [''x'', ''system_resources'']
        \<and> dict_get (component_counts r) ''total'' = Some 1
        \<and> int (length (report_components r)) = 2
        \<and> dict_get (component_counts r) ''degraded'' = Some 1)
   \<and> uncaught check_exits = Some ''SystemExit''
   \<and> fst (get_system_status check_exits monitor1 world1) = RaisesBase ''SystemExit''"
proof -
  have a: "distinct (dict_keys (components monitor1))"
    and b: "''system_resources'' \<notin> set (dict_keys (components monitor1))"
    by (simp_all add: monitor1_def dict_keys_def)
  have c: "components monitor1 = [(''x'', \<lparr>name = ''x'', status = DEGRADED, last_updated = 0,
                                     error_count = 2, warning_count = 1,
                                     last_error = Some ''slow'', last_error_time = Some 0,
                                     fallback_active = True, metadata = 0\<rparr>)]"
    by (simp add: monitor1_def)
  have d: "count_status DEGRADED monitor1 = 1"
    by (simp add: count_status_def c dict_values_def)
  have u: "uncaught (monitor_reports ''ok'') = None" "uncaught check_exits = Some ''SystemExit''"
    by (simp_all add: uncaught_def monitor_reports_def check_exits_def)
  have k: "dict_keys (components monitor1) = [''x'']" "length (components monitor1) = 1"
    by (simp_all add: c dict_keys_def)
  show ?thesis
    using a b u system_status_counts [OF a b, of "monitor_reports ''ok''" world1]
      system_status_counts [OF a b, of check_exits world1]
    by (auto simp: d k)
qed

section \<open>One record for each name\<close>

lemma distinct_dict_set: "distinct (map fst d) \<Longrightarrow> distinct (map fst (dict_set d k v))"
proof (cases "map_of d k")
  case None
  assume "distinct (map fst d)"
  then show ?thesis
    using None by (simp add: dict_set_absent map_of_eq_None_iff)
next
  case (Some x)
  assume "distinct (map fst d)"
  then show ?thesis using Some by (simp add: dict_set_present)
qed

lemma list_all_dict_set: "list_all P d \<Longrightarrow> P (k, v) \<Longrightarrow> list_all P (dict_set d k v)"
  by (induction d) auto

lemma name_of_key: "one_record_per_name m \<Longrightarrow> name_of m n = n"
proof (cases "map_of (components m) n")
  case None
  then show ?thesis by (simp add: name_of_def)
next
  case (Some h)
  assume "one_record_per_name m"
  then have "list_all (\<lambda>(k, h). name h = k) (components m)"
    by (simp add: one_record_per_name_def)
  moreover from Some have "(n, h) \<in> set (components m)" by (rule map_of_SomeD)
  ultimately have "name h = n" by (auto simp: list_all_iff)
  then show ?thesis using Some by (simp add: name_of_def)
qed

lemma one_record_dict_set:
  "one_record_per_name m \<Longrightarrow> name h' = n \<Longrightarrow>
   one_record_per_name (m\<lparr>components := dict_set (components m) n h'\<rparr>)"
  by (simp add: one_record_per_name_def dict_keys_def distinct_dict_set list_all_dict_set)

lemma one_record_update_system_status [simp]:
  "one_record_per_name (update_system_status m) = one_record_per_name m"
  by (simp add: one_record_per_name_def update_system_status_components)

lemma step_one_record:
  assumes "one_record_per_name m"
  shows "\<exists>m' w'. step c (m, w) = Inr (m', w') \<and> one_record_per_name m'"
proof (cases c)
  case (Register n md)
  from register_component_effect [of n md m w] show ?thesis
    using Register assms by (auto simp: one_record_dict_set)
next
  case (MarkHealthy n md)
  from mark_healthy_effect [of n md m w] show ?thesis
    using MarkHealthy assms by (auto simp: one_record_dict_set name_of_key)
next
  case (MarkDegraded n e fb md)
  from mark_degraded_effect [of n e fb md m w] show ?thesis
    using MarkDegraded assms by (auto simp: one_record_dict_set name_of_key)
next
  case (MarkFailed n e md)
  from mark_failed_effect [of n e md m w] show ?thesis
    using MarkFailed assms by (auto simp: one_record_dict_set name_of_key)
next
  case (GetComponentHealth n)
  from get_component_health_effect [of m n w] show ?thesis
    using GetComponentHealth assms by (auto simp: one_record_dict_set)
qed (use assms in simp_all)

lemma run_one_record:
  "one_record_per_name m \<Longrightarrow> \<exists>m' w'. run cs (m, w) = Inr (m', w') \<and> one_record_per_name m'"
proof (induction cs arbitrary: m w)
  case Nil
  then show ?case by simp
next
  case (Cons c cs)
  from step_one_record [OF Cons.prems, of c w] obtain m1 w1 where
    s: "step c (m, w) = Inr (m1, w1)" and i: "one_record_per_name m1" by blast
  from Cons.IH [OF i, of w1] show ?case using s by simp
qed

lemma to_dict_items_key_set:
  "fst ` set (fst (to_dict_items items acc w)) = fst ` set acc \<union> fst ` set items"
proof (induction items arbitrary: acc w)
  case Nil
  then show ?case by simp
next
  case (Cons p items)
  obtain n h where p: "p = (n, h)" by (cases p)
  show ?case
    using Cons.IH [of "dict_set acc n (fst (to_dict h w))" "snd (to_dict h w)"]
    by (auto simp: p split_def Let_def keys_dict_set)
qed

lemma get_all_health_key_set:
  "fst (get_all_health g m w) = Returns r \<Longrightarrow>
   set (dict_keys r) = insert ''system_resources'' (set (dict_keys (components m)))"
proof (cases rule: get_all_health_cases [of g m w])
  case (escapes b)
  assume "fst (get_all_health g m w) = Returns r"
  with escapes show ?thesis by simp
next
  case (returns rc w2)
  assume "fst (get_all_health g m w) = Returns r"
  with returns(2)
  have "r = dict_set (fst (to_dict_items (components m) [] w)) ''system_resources''
              (fst (to_dict rc w2))"
    by simp
  then show ?thesis
    by (simp add: dict_keys_def keys_dict_set to_dict_items_key_set)
qed

lemma get_all_health_returns:
  "(case uncaught g of
      Some b \<Rightarrow> fst (get_all_health g m w) = RaisesBase b
    | None \<Rightarrow> (\<exists>r. fst (get_all_health g m w) = Returns r))"
  by (cases rule: get_all_health_cases [of g m w]) simp_all

text \<open>
  C6. For a name that is not a key of the registry, \<open>get_component_health\<close> returns
  normally a record of that name with status \<open>UNKNOWN\<close>, stores it under the name, and
  every later \<open>get_all_health\<close> on that registry either passes on what the collaborator
  raises outside \<open>Exception\<close> or returns a snapshot with the name among its keys. And
  after every sequence of calls on a new registry each name is a key once and is the name
  of the record under it.
\<close>

theorem unseen_name_auto_registered:
  "(\<not> dict_contains (components m) n \<longrightarrow>
      (\<exists>h m' w'. get_component_health n m w = Inr (h, m', w')
         \<and> status h = UNKNOWN \<and> name h = n
         \<and> dict_get (components m') n = Some h
         \<and> (\<forall>g w''. case uncaught g of
                        Some b \<Rightarrow> fst (get_all_health g m' w'') = RaisesBase b
                      | None \<Rightarrow> (\<exists>r. fst (get_all_health g m' w'') = Returns r
                                    \<and> n \<in> set (dict_keys r)))))
   \<and> (\<exists>m' w'. run cs (init_monitor, w0) = Inr (m', w') \<and> one_record_per_name m')"
proof (intro conjI impI)
  assume "\<not> dict_contains (components m) n"
  then have none: "map_of (components m) n = None" by (simp add: dict_contains_def)
  from get_component_health_effect [of m n w] none obtain h' w' where
    g: "get_component_health n m w = Inr (h', m\<lparr>components := dict_set (components m) n h'\<rparr>, w')"
    and st: "status h' = UNKNOWN" "name h' = n" by auto
  let ?m' = "m\<lparr>components := dict_set (components m) n h'\<rparr>"
  have l: "dict_get (components ?m') n = Some h'"
    by (simp add: dict_get_def map_of_dict_set)
  have k: "n \<in> set (dict_keys (components ?m'))"
    by (simp add: dict_keys_def keys_dict_set)
  have "\<forall>g w''. case uncaught g of
                        Some b \<Rightarrow> fst (get_all_health g ?m' w'') = RaisesBase b
                      | None \<Rightarrow> (\<exists>r. fst (get_all_health g ?m' w'') = Returns r
                                    \<and> n \<in> set (dict_keys r))"
  proof (intro allI)
    fix g w''
    show "case uncaught g of
                        Some b \<Rightarrow> fst (get_all_health g ?m' w'') = RaisesBase b
                      | None \<Rightarrow> (\<exists>r. fst (get_all_health g ?m' w'') = Returns r
                                    \<and> n \<in> set (dict_keys r))"
      using get_all_health_returns [of g ?m' w''] k
      by (auto simp: get_all_health_key_set split: option.splits)
  qed
  then show "\<exists>h m' w'. get_component_health n m w = Inr (h, m', w')
         \<and> status h = UNKNOWN \<and> name h = n
         \<and> dict_get (components m') n = Some h
         \<and> (\<forall>g w''. case uncaught g of
                        Some b \<Rightarrow> fst (get_all_health g m' w'') = RaisesBase b
                      | None \<Rightarrow> (\<exists>r. fst (get_all_health g m' w'') = Returns r
                                    \<and> n \<in> set (dict_keys r)))"
    using g st l by blast
next
  have "one_record_per_name init_monitor"
    by (simp add: one_record_per_name_def init_monitor_def dict_keys_def)
  then show "\<exists>m' w'. run cs (init_monitor, w0) = Inr (m', w') \<and> one_record_per_name m'"
    by (rule run_one_record)
qed

theorem unseen_name_auto_registered_witness:
  "\<not> dict_contains (components monitor1) ''never-seen''
   \<and> uncaught (Raises ''down'') = None
   \<and> (\<exists>h m' w'. get_component_health ''never-seen'' monitor1 world1 = Inr (h, m', w')
         \<and> status h = UNKNOWN \<and> name h = ''never-seen''
         \<and> dict_get (components m') ''never-seen'' = Some h
         \<and> (\<exists>r. fst (get_all_health (Raises ''down'') m' w') = Returns r
               \<and> ''never-seen'' \<in> set (dict_keys r)))
   \<and> (\<exists>m' w'. run [GetComponentHealth ''never-seen'', MarkFailed ''never-seen'' None None,
                     Register ''never-seen'' None] (init_monitor, world0) = Inr (m', w')
         \<and> one_record_per_name m')"
proof -
  have a: "\<not> dict_contains (components monitor1) ''never-seen''"
    by (simp add: dict_contains_def monitor1_def)
  have u: "uncaught (Raises ''down'') = None" by (simp add: uncaught_def)
  from unseen_name_auto_registered [of monitor1 "''never-seen''" world1
      "[GetComponentHealth ''never-seen'', MarkFailed ''never-seen'' None None,
        Register ''never-seen'' None]" world0] a
  obtain h m' w' where
    g: "get_component_health ''never-seen'' monitor1 world1 = Inr (h, m', w')"
    "status h = UNKNOWN" "name h = ''never-seen''"
    "dict_get (components m') ''never-seen'' = Some h"
    and all: "\<And>g w''. case uncaught g of
                        Some b \<Rightarrow> fst (get_all_health g m' w'') = RaisesBase b
                      | None \<Rightarrow> (\<exists>r. fst (get_all_health g m' w'') = Returns r
                                    \<and> ''never-seen'' \<in> set (dict_keys r))"
    and r: "\<exists>m' w'. run [GetComponentHealth ''never-seen'', MarkFailed ''never-seen'' None None,
                     Register ''never-seen'' None] (init_monitor, world0) = Inr (m', w')
         \<and> one_record_per_name m'"
    by blast
  from all [of "Raises ''down''" w'] u
  have "\<exists>r. fst (get_all_health (Raises ''down'') m' w') = Returns r
               \<and> ''never-seen'' \<in> set (dict_keys r)" by simp
  then show ?thesis using a u g r by blast
qed

section \<open>What a snapshot shares with the registry\<close>

lemma stored_view_extends:
  "refs_allocated m w \<Longrightarrow> extends w w' \<Longrightarrow> stored_view m w' = stored_view m w"
  by (auto simp: refs_allocated_def extends_def stored_view_def list_all_iff dict_values_def)

lemma stored_view_fresh_write:
  "refs_allocated m w \<Longrightarrow> next_addr w \<le> a \<Longrightarrow>
   stored_view m (caller_setitem a k v w') = stored_view m w'"
  by (auto simp: refs_allocated_def stored_view_def caller_setitem_def list_all_iff dict_values_def)

lemma get_all_health_lookup:
  assumes "refs_allocated m w" and "distinct (dict_keys (components m))"
    and "dict_get (components m) n = Some h" and "n \<noteq> ''system_resources''"
    and "fst (get_all_health g m w) = Returns r"
  shows "\<exists>a. dict_get r n = Some (entry_of h a)
          \<and> (heap w (metadata h) \<noteq> [] \<longrightarrow> a = metadata h)
          \<and> (heap w (metadata h) = [] \<longrightarrow> next_addr w \<le> a)"
proof (cases rule: get_all_health_cases [of g m w])
  case (escapes b)
  with assms(5) show ?thesis by simp
next
  case (returns rc w2)
  from assms(1) have al: "list_all (\<lambda>h. metadata h < next_addr w) (map snd (components m))"
    by (simp add: refs_allocated_def dict_values_def)
  from assms(2) have d: "distinct (map fst (components m))" by (simp add: dict_keys_def)
  from assms(3) have l: "map_of (components m) n = Some h" by (simp add: dict_get_def)
  from assms(5) returns(2)
  have r: "r = dict_set (fst (to_dict_items (components m) [] w)) ''system_resources''
                 (fst (to_dict rc w2))"
    by simp
  from to_dict_items_lookup [OF d l al extends_refl, of "[]"] obtain a where
    "map_of (fst (to_dict_items (components m) [] w)) n = Some (entry_of h a)"
    "heap w (metadata h) \<noteq> [] \<longrightarrow> a = metadata h"
    "heap w (metadata h) = [] \<longrightarrow> next_addr w \<le> a" by blast
  then show ?thesis
    using assms(4)
    by (auto simp: r dict_get_def map_of_dict_set intro!: exI [of _ a])
qed

text \<open>
  C3, as the code has it. \<open>get_all_health\<close> does not change what the registry stores.
  When it returns (it passes on what the collaborator raises outside \<open>Exception\<close>), the
  entry of a stored component carries copies of the scalar fields of its record. Under
  \<open>"metadata"\<close> it carries a reference: to the metadata object of the record itself when
  that object is non-empty, and to a new empty dictionary, different from the record's,
  when it is empty. In the second case no write through the reference changes what the
  registry stores.
\<close>

theorem snapshot_shares_metadata:
  assumes "refs_allocated m w" and "distinct (dict_keys (components m))"
    and "dict_get (components m) n = Some h" and "n \<noteq> ''system_resources''"
  shows "stored_view m (snd (get_all_health g m w)) = stored_view m w
     \<and> (case uncaught g of
           Some b \<Rightarrow> fst (get_all_health g m w) = RaisesBase b
         | None \<Rightarrow>
            (\<exists>r a. fst (get_all_health g m w) = Returns r
               \<and> dict_get r n = Some (entry_of h a)
               \<and> (heap w (metadata h) \<noteq> [] \<longrightarrow> a = metadata h)
               \<and> (heap w (metadata h) = [] \<longrightarrow>
                    a \<noteq> metadata h
                    \<and> (\<forall>k v. stored_view m (caller_setitem a k v (snd (get_all_health g m w)))
                               = stored_view m w))))"
proof -
  have v: "stored_view m (snd (get_all_health g m w)) = stored_view m w"
    using assms(1) get_all_health_extends by (rule stored_view_extends)
  show ?thesis
  proof (cases "uncaught g")
    case (Some b)
    with get_all_health_returns [of g m w] v show ?thesis by simp
  next
    case None
    with get_all_health_returns [of g m w] obtain r where
      r: "fst (get_all_health g m w) = Returns r" by auto
    from get_all_health_lookup [OF assms r] obtain a where
      a: "dict_get r n = Some (entry_of h a)"
      "heap w (metadata h) \<noteq> [] \<longrightarrow> a = metadata h"
      "heap w (metadata h) = [] \<longrightarrow> next_addr w \<le> a" by blast
    from assms(1,3) have "metadata h < next_addr w"
      by (auto simp: refs_allocated_def dict_get_def dict_values_def list_all_iff
          dest!: map_of_SomeD)
    then have "next_addr w \<le> a \<longrightarrow> a \<noteq> metadata h" by auto
    then have "\<exists>r a. fst (get_all_health g m w) = Returns r
               \<and> dict_get r n = Some (entry_of h a)
               \<and> (heap w (metadata h) \<noteq> [] \<longrightarrow> a = metadata h)
               \<and> (heap w (metadata h) = [] \<longrightarrow>
                    a \<noteq> metadata h
                    \<and> (\<forall>k v. stored_view m (caller_setitem a k v (snd (get_all_health g m w)))
                               = stored_view m w))"
      using v r a stored_view_fresh_write [OF assms(1), where w' = "snd (get_all_health g m w)"]
      by (intro exI [of _ r] exI [of _ a]) auto
    then show ?thesis using v None by simp
  qed
qed

text \<open>
  C3 as stated fails: after \<open>register("c", {"a": 1})\<close> the snapshot's entry of \<open>c\<close> refers
  to the dictionary object the registry holds, and writing \<open>["a"] = 99\<close> through it
  changes the stored metadata of \<open>c\<close> from \<open>{"a": 1}\<close> to \<open>{"a": 99}\<close>.
\<close>

theorem snapshot_copy_counterexample:
  "snapshot_metadata (fst (get_all_health (Raises ''down'') reg_m reg_w)) ''c'' = Some (PRef 0)
   \<and> metadata_of reg_m (snd (get_all_health (Raises ''down'') reg_m reg_w)) ''c''
        = [(''a'', PInt 1)]
   \<and> metadata_of reg_m
        (caller_setitem 0 ''a'' (PInt 99) (snd (get_all_health (Raises ''down'') reg_m reg_w))) ''c''
        = [(''a'', PInt 99)]"
  by code_simp

theorem snapshot_shares_metadata_witness:
  "refs_allocated monitor1 world1 \<and> distinct (dict_keys (components monitor1))
   \<and> dict_get (components monitor1) ''x''
        = Some \<lparr>name = ''x'', status = DEGRADED, last_updated = 0, error_count = 2,
                warning_count = 1, last_error = Some ''slow'', last_error_time = Some 0,
                fallback_active = True, metadata = 0\<rparr>
   \<and> ''x'' \<noteq> ''system_resources''
   \<and> uncaught (Raises ''down'') = None
   \<and> stored_view monitor1 (snd (get_all_health (Raises ''down'') monitor1 world1))
        = stored_view monitor1 world1
   \<and> snapshot_metadata (fst (get_all_health (Raises ''down'') monitor1 world1)) ''x''
        = Some (PRef 0)
   \<and> refs_allocated monitor_e world1 \<and> distinct (dict_keys (components monitor_e))
   \<and> dict_get (components monitor_e) ''e''
        = Some \<lparr>name = ''e'', status = HEALTHY, last_updated = 0, error_count = 0,
                warning_count = 0, last_error = None, last_error_time = None,
                fallback_active = False, metadata = Suc 0\<rparr>
   \<and> ''e'' \<noteq> ''system_resources''
   \<and> (\<exists>a. snapshot_metadata (fst (get_all_health (Raises ''down'') monitor_e world1)) ''e''
             = Some (PRef a)
          \<and> a \<noteq> Suc 0
          \<and> (\<forall>k v. stored_view monitor_e
                       (caller_setitem a k v (snd (get_all_health (Raises ''down'') monitor_e world1)))
                     = stored_view monitor_e world1))"
proof -
  let ?hx = "\<lparr>name = ''x'', status = DEGRADED, last_updated = 0, error_count = 2,
                warning_count = 1, last_error = Some ''slow'', last_error_time = Some 0,
                fallback_active = True, metadata = 0\<rparr>"
  let ?he = "\<lparr>name = ''e'', status = HEALTHY, last_updated = 0, error_count = 0,
                warning_count = 0, last_error = None, last_error_time = None,
                fallback_active = False, metadata = Suc 0\<rparr>"
  have x: "refs_allocated monitor1 world1" "distinct (dict_keys (components monitor1))"
    "dict_get (components monitor1) ''x'' = Some ?hx" "''x'' \<noteq> ''system_resources''"
    by (simp_all add: refs_allocated_def monitor1_def world1_def dict_keys_def dict_values_def
        dict_get_def)
  have e: "refs_allocated monitor_e world1" "distinct (dict_keys (components monitor_e))"
    "dict_get (components monitor_e) ''e'' = Some ?he" "''e'' \<noteq> ''system_resources''"
    by (simp_all add: refs_allocated_def monitor_e_def world1_def dict_keys_def dict_values_def
        dict_get_def)
  have hx: "heap world1 (metadata ?hx) \<noteq> []" and he: "heap world1 (metadata ?he) = []"
    by (simp_all add: world1_def)
  have u: "uncaught (Raises ''down'') = None" by (simp add: uncaught_def)
  have m: "\<And>h a. dict_get (entry_of h a) ''metadata'' = Some (PRef a)"
    by (simp add: entry_of_def dict_get_def)
  from snapshot_shares_metadata [OF x, of "Raises ''down''"] hx u
  have 1: "stored_view monitor1 (snd (get_all_health (Raises ''down'') monitor1 world1))
        = stored_view monitor1 world1
     \<and> snapshot_metadata (fst (get_all_health (Raises ''down'') monitor1 world1)) ''x''
        = Some (PRef 0)"
    by (auto simp: snapshot_metadata_def m)
  from snapshot_shares_metadata [OF e, of "Raises ''down''"] he u
  have 2: "\<exists>a. snapshot_metadata (fst (get_all_health (Raises ''down'') monitor_e world1)) ''e''
             = Some (PRef a)
          \<and> a \<noteq> Suc 0
          \<and> (\<forall>k v. stored_view monitor_e
                       (caller_setitem a k v (snd (get_all_health (Raises ''down'') monitor_e world1)))
                     = stored_view monitor_e world1)"
    by (auto simp: snapshot_metadata_def m)
  show ?thesis using x e u 1 2 by blast
qed

section \<open>Reset\<close>

lemma get_system_status_empty:
  "components m = [] \<Longrightarrow>
   (case uncaught g of
      Some b \<Rightarrow> fst (get_system_status g m w) = RaisesBase b
    | None \<Rightarrow>
       (\<exists>r. fst (get_system_status g m w) = Returns r
          \<and> overall_status r = status_value (system_status m)
          \<and> dict_get (component_counts r) ''total'' = Some 0))"
  by (cases rule: get_system_status_cases [of g m w]) (simp_all add: dict_get_def)

lemma get_health_monitor_after_reset:
  "get_health_monitor (reset self p)
     = (next_obj p,
        p\<lparr>objs := (objs (reset self p))(next_obj p := init_monitor),
          next_obj := Suc (next_obj p),
          cls_instance := Some (next_obj p),
          health_monitor := Some (next_obj p)\<rparr>)"
  by (simp add: get_health_monitor_def construct_monitor_def monitor_new_def monitor_init_def
      reset_def blank_object_def Let_def)

text \<open>
  C8. After \<open>reset\<close> on an existing monitor object, that object holds no component and
  the status \<open>HEALTHY\<close>, so its \<open>get_system_status\<close>, unless it passes on what the
  collaborator raises outside \<open>Exception\<close>, reports \<open>"healthy"\<close> and a total of 0; the class
  attribute \<open>_instance\<close> and the global \<open>_health_monitor\<close> are both \<open>None\<close>, and the next
  \<open>get_health_monitor()\<close> creates an object that did not exist before, initialised by
  \<open>__init__\<close> with no component, and makes it the singleton.
\<close>

theorem reset_gives_fresh_singleton:
  assumes "self < next_obj p"
  shows "components (objs (reset self p) self) = []
     \<and> system_status (objs (reset self p) self) = HEALTHY
     \<and> (case uncaught g of
           Some b \<Rightarrow> fst (get_system_status g (objs (reset self p) self) w) = RaisesBase b
         | None \<Rightarrow>
            (\<exists>r. fst (get_system_status g (objs (reset self p) self) w) = Returns r
               \<and> overall_status r = ''healthy''
               \<and> dict_get (component_counts r) ''total'' = Some 0))
     \<and> cls_instance (reset self p) = None \<and> health_monitor (reset self p) = None
     \<and> fst (get_health_monitor (reset self p)) \<noteq> self
     \<and> fst (get_health_monitor (reset self p)) = next_obj p
     \<and> objs (snd (get_health_monitor (reset self p))) (fst (get_health_monitor (reset self p)))
          = init_monitor
     \<and> components (objs (snd (get_health_monitor (reset self p)))
                     (fst (get_health_monitor (reset self p)))) = []
     \<and> health_monitor (snd (get_health_monitor (reset self p)))
          = Some (fst (get_health_monitor (reset self p)))"
proof -
  have c: "components (objs (reset self p) self) = []"
    and s: "system_status (objs (reset self p) self) = HEALTHY"
    by (simp_all add: reset_def)
  from get_system_status_empty [OF c, of g w] s
  have r: "case uncaught g of
           Some b \<Rightarrow> fst (get_system_status g (objs (reset self p) self) w) = RaisesBase b
         | None \<Rightarrow>
            (\<exists>r. fst (get_system_status g (objs (reset self p) self) w) = Returns r
               \<and> overall_status r = ''healthy''
               \<and> dict_get (component_counts r) ''total'' = Some 0)"
    by (cases "uncaught g") simp_all
  have n: "cls_instance (reset self p) = None" "health_monitor (reset self p) = None"
    by (simp_all add: reset_def)
  show ?thesis
    using assms c s r n
    by (simp add: get_health_monitor_after_reset init_monitor_def)
qed

theorem reset_gives_fresh_singleton_witness:
  "(0::nat) < next_obj program1
   \<and> fst (get_health_monitor program1) = 0
   \<and> components (objs program1 0) \<noteq> []
   \<and> components (objs (reset 0 program1) 0) = []
   \<and> system_status (objs (reset 0 program1) 0) = HEALTHY
   \<and> uncaught (Raises ''down'') = None
   \<and> (\<exists>r. fst (get_system_status (Raises ''down'') (objs (reset 0 program1) 0) world1) = Returns r
        \<and> overall_status r = ''healthy''
        \<and> dict_get (component_counts r) ''total'' = Some 0)
   \<and> fst (get_health_monitor (reset 0 program1)) = 1
   \<and> components (objs (snd (get_health_monitor (reset 0 program1)))
                   (fst (get_health_monitor (reset 0 program1)))) = []"
proof -
  have a: "(0::nat) < next_obj program1" by (simp add: program1_def)
  have b: "fst (get_health_monitor program1) = 0" "components (objs program1 0) \<noteq> []"
    "next_obj program1 = 1"
    by (simp_all add: get_health_monitor_def program1_def monitor1_def)
  have u: "uncaught (Raises ''down'') = None" by (simp add: uncaught_def)
  show ?thesis
    using a b u reset_gives_fresh_singleton [OF a, of "Raises ''down''" world1]
    by auto
qed

section \<open>Audit records\<close>

lemma replace_char_absent: "old \<noteq> new \<Longrightarrow> old \<notin> set (replace_char old new s)"
  by (auto simp: replace_char_def)

lemma replace_char_keeps_absent: "c \<notin> set s \<Longrightarrow> c \<noteq> new \<Longrightarrow> c \<notin> set (replace_char old new s)"
  by (auto simp: replace_char_def)

text \<open>
  The details string \<open>log_event\<close> passes on has no line feed and no carriage return,
  whatever the dictionary and whatever its rendering.
\<close>

lemma details_str_one_line:
  "LF \<notin> set (details_str str_dict details) \<and> CR \<notin> set (details_str str_dict details)"
proof (cases details)
  case None
  then show ?thesis by (simp add: details_str_def)
next
  case (Some d)
  have "LF \<notin> set (replace_char LF (CHR '' '') (str_dict d))"
    by (rule replace_char_absent) (simp add: LF_def)
  then have "LF \<notin> set (replace_char CR (CHR '' '') (replace_char LF (CHR '' '') (str_dict d)))"
    by (rule replace_char_keeps_absent) (simp add: LF_def)
  moreover have "CR \<notin> set (replace_char CR (CHR '' '') (replace_char LF (CHR '' '') (str_dict d)))"
    by (rule replace_char_absent) (simp add: CR_def)
  ultimately show ?thesis using Some by (simp add: details_str_def)
qed

text \<open>A record that is written is the eight fields in the order of the format string.\<close>

lemma log_event_fields:
  "INFO \<le> level \<Longrightarrow>
   log_event str_dict asctime event_type user ip resource action details level
     = Some (asctime @ '' - '' @ level_name level @ '' - '' @ event_value event_type @ '' - ''
             @ user @ '' - '' @ ip @ '' - '' @ resource @ '' - '' @ action @ '' - ''
             @ details_str str_dict details)"
  by (simp add: log_event_def audit_format_def)

text \<open>
  C9. The record is not always one line: \<open>log_event\<close> strips line breaks from the
  details only. For \<open>log_auth_failure(user="eve\nroot", ip="10.0.0.9", reason="bad password")\<close>,
  whatever the rendering of the details, the text written for the record contains the
  line feed of the user name.
\<close>

theorem audit_record_spans_lines:
  "\<exists>line. log_auth_failure str_dict ''2024-01-01 00:00:00'' (''eve'' @ [LF] @ ''root'')
             ''10.0.0.9'' ''bad password'' = Some line
     \<and> LF \<in> set line"
  by (simp add: log_auth_failure_def log_event_def audit_format_def INFO_def WARNING_def)

end
